theory Spec2Isabelle
  imports Main
begin

section \<open>Text\<close>

text \<open>
  Python strings are modelled as \<open>string\<close>; the model is exact for ASCII text, which is
  what every literal of the program but one consists of (the victory line, whose two
  emoji are written as their UTF-8 bytes). \<open>lower\<close>, \<open>upper\<close> and \<open>strip\<close> are
  \<open>str.lower\<close>, \<open>str.upper\<close> and \<open>str.strip\<close> on ASCII: the letters A-Z and a-z, and
  the ASCII characters for which \<open>str.isspace\<close> holds (codes 9 to 13 and 28 to 32).
\<close>

definition ascii_uppercase :: string where
  "ascii_uppercase = ''ABCDEFGHIJKLMNOPQRSTUVWXYZ''"

definition ascii_lowercase :: string where
  "ascii_lowercase = ''abcdefghijklmnopqrstuvwxyz''"

definition whitespace :: string where
  "whitespace =
     [CHR 0x09, CHR 0x0A, CHR 0x0B, CHR 0x0C, CHR 0x0D, CHR 0x1C, CHR 0x1D, CHR 0x1E, CHR 0x1F,
      CHR 0x20]"

definition lower_char :: "char \<Rightarrow> char" where
  "lower_char c =
     (case map_of (zip ascii_uppercase ascii_lowercase) c of Some d \<Rightarrow> d | None \<Rightarrow> c)"

definition upper_char :: "char \<Rightarrow> char" where
  "upper_char c =
     (case map_of (zip ascii_lowercase ascii_uppercase) c of Some d \<Rightarrow> d | None \<Rightarrow> c)"

definition lower :: "string \<Rightarrow> string" where
  "lower s = map lower_char s"

definition upper :: "string \<Rightarrow> string" where
  "upper s = map upper_char s"

definition isspace :: "char \<Rightarrow> bool" where
  "isspace c = (c \<in> set whitespace)"

definition strip :: "string \<Rightarrow> string" where
  "strip s = rev (dropWhile isspace (rev (dropWhile isspace s)))"

definition startswith :: "string \<Rightarrow> string \<Rightarrow> bool" where
  "startswith s p = (take (length p) s = p)"

text \<open>\<open>", ".join(xs)\<close>\<close>

fun join :: "string \<Rightarrow> string list \<Rightarrow> string" where
  "join sep [] = []"
| "join sep [x] = x"
| "join sep (x # y # ys) = x @ sep @ join sep (y # ys)"

text \<open>\<open>str(n)\<close> for an integer, as the f-strings of the combat messages format it.\<close>

fun digits :: "nat \<Rightarrow> string" where
  "digits n =
     (if n < 10 then [''0123456789'' ! n]
      else digits (n div 10) @ [''0123456789'' ! (n mod 10)])"

definition str :: "int \<Rightarrow> string" where
  "str i = (if i < 0 then ''-'' @ digits (nat (- i)) else digits (nat i))"

section \<open>Errors and randomness\<close>

text \<open>
  The exceptions the program can raise without catching them. \<open>run\<close> catches only
  KeyboardInterrupt and EOFError, so each of these ends the program.
\<close>

datatype error = AttributeError | KeyError | ValueError

text \<open>
  \<open>random.randint(a, b)\<close>: some integer of \<open>[a, b]\<close>, ValueError when the range is
  empty. The generator is outside the program; the model takes its entropy \<open>r\<close> as an
  input, and every integer of the range is the result for some \<open>r\<close>.
\<close>

definition randint :: "int \<Rightarrow> int \<Rightarrow> nat \<Rightarrow> error + int" where
  "randint a b r = (if a \<le> b then Inr (a + int r mod (b - a + 1)) else Inl ValueError)"

section \<open>Item and Room\<close>

record item =
  name :: string
  description :: string
  takeable :: bool

text \<open>
  Rooms are objects that refer to each other and that the game reaches through several
  references (\<open>current_room\<close>, the \<open>rooms\<close> table, the exits), so a room is held in a
  store and referred to by a reference. \<open>setup_game\<close> allocates the only three Room
  objects of a run, bound there to \<open>room1\<close>, \<open>room2\<close> and \<open>room3\<close>.
\<close>

datatype room_ref = Room1 | Room2 | Room3

record room =
  name :: string
  description :: string
  items :: "item list"
  north :: "room_ref option"
  south :: "room_ref option"
  north_door_locked :: bool
  visited :: bool

definition Room_init :: "string \<Rightarrow> string \<Rightarrow> room" where
  "Room_init nm desc =
     \<lparr>room.name = nm, room.description = desc, items = [], north = None, south = None,
      north_door_locked = False, visited = False\<rparr>"

definition get_full_description :: "room \<Rightarrow> string" where
  "get_full_description r =
     (let desc = ''\<newline>=== '' @ room.name r @ '' ===\<newline>'' @ room.description r @ ''\<newline>'';
          desc = (if items r \<noteq> []
                  then desc @ ''\<newline>You can see:\<newline>''
                         @ concat (map (\<lambda>i. ''  - A '' @ item.name i @ ''\<newline>'') (items r))
                  else desc);
          exits = (if north r \<noteq> None then [''north''] else [])
                  @ (if south r \<noteq> None then [''south''] else [])
      in if exits \<noteq> [] then desc @ ''\<newline>Exits: '' @ join '', '' exits else desc)"

definition Room_add_item :: "room \<Rightarrow> item \<Rightarrow> room" where
  "Room_add_item r i = r\<lparr>items := items r @ [i]\<rparr>"

text \<open>
  \<open>remove_item\<close> and \<open>get_item\<close> take the first item whose name matches, case
  insensitively. \<open>self.items.remove(item)\<close> removes the first occurrence of the item
  found, which is the first item of that name.
\<close>

definition Room_remove_item :: "room \<Rightarrow> string \<Rightarrow> room \<times> item option" where
  "Room_remove_item r item_name =
     (case find (\<lambda>i. lower (item.name i) = lower item_name) (items r) of
        Some i \<Rightarrow> (r\<lparr>items := remove1 i (items r)\<rparr>, Some i)
      | None \<Rightarrow> (r, None))"

definition Room_get_item :: "room \<Rightarrow> string \<Rightarrow> item option" where
  "Room_get_item r item_name = find (\<lambda>i. lower (item.name i) = lower item_name) (items r)"

section \<open>Player and Enemy\<close>

record player =
  inventory :: "item list"
  health :: int
  max_health :: int
  min_damage :: int
  max_damage :: int

definition Player_init :: player where
  "Player_init =
     \<lparr>inventory = [], player.health = 20, player.max_health = 20,
      player.min_damage = 1, player.max_damage = 6\<rparr>"

definition Player_add_item :: "player \<Rightarrow> item \<Rightarrow> player" where
  "Player_add_item p i = p\<lparr>inventory := inventory p @ [i]\<rparr>"

definition has_item :: "player \<Rightarrow> string \<Rightarrow> bool" where
  "has_item p item_name = list_ex (\<lambda>i. lower (item.name i) = lower item_name) (inventory p)"

definition Player_get_item :: "player \<Rightarrow> string \<Rightarrow> item option" where
  "Player_get_item p item_name =
     find (\<lambda>i. lower (item.name i) = lower item_name) (inventory p)"

definition show_inventory :: "player \<Rightarrow> string" where
  "show_inventory p =
     (if inventory p = [] then ''\<newline>Your inventory is empty.''
      else ''\<newline>=== Inventory ===\<newline>''
             @ concat (map (\<lambda>i. ''  - '' @ item.name i @ ''\<newline>'') (inventory p)))"

definition Player_attack :: "player \<Rightarrow> nat \<Rightarrow> error + int" where
  "Player_attack p r = randint (player.min_damage p) (player.max_damage p) r"

definition Player_take_damage :: "player \<Rightarrow> int \<Rightarrow> player" where
  "Player_take_damage p damage =
     (let p = p\<lparr>player.health := player.health p - damage\<rparr>
      in if player.health p < 0 then p\<lparr>player.health := 0\<rparr> else p)"

record enemy =
  name :: string
  health :: int
  max_health :: int
  min_damage :: int
  max_damage :: int

definition Enemy_init :: "string \<Rightarrow> int \<Rightarrow> int \<Rightarrow> int \<Rightarrow> enemy" where
  "Enemy_init nm h lo hi =
     \<lparr>enemy.name = nm, enemy.health = h, enemy.max_health = h,
      enemy.min_damage = lo, enemy.max_damage = hi\<rparr>"

definition Enemy_attack :: "enemy \<Rightarrow> nat \<Rightarrow> error + int" where
  "Enemy_attack e r = randint (enemy.min_damage e) (enemy.max_damage e) r"

definition Enemy_take_damage :: "enemy \<Rightarrow> int \<Rightarrow> enemy" where
  "Enemy_take_damage e damage =
     (let e = e\<lparr>enemy.health := enemy.health e - damage\<rparr>
      in if enemy.health e < 0 then e\<lparr>enemy.health := 0\<rparr> else e)"

definition is_alive :: "enemy \<Rightarrow> bool" where
  "is_alive e = (enemy.health e > 0)"

section \<open>Game\<close>

text \<open>
  The state of a \<open>Game\<close> object. \<open>store\<close> holds the Room objects; \<open>rooms\<close> is the
  dictionary from room identifiers to rooms, \<open>current_room\<close> and the exits of a room
  are references into the store or None.
\<close>

record game =
  player :: player
  current_room :: "room_ref option"
  rooms :: "string \<rightharpoonup> room_ref"
  store :: "room_ref \<Rightarrow> room"
  door_unlocked :: bool
  password :: string
  game_over :: bool
  game_won :: bool
  in_combat :: bool
  enemy :: "enemy option"
  enemy_defeated :: bool

text \<open>
  Output is the list of the strings passed to \<open>print\<close>, in order. A method that can
  raise returns \<open>error + game \<times> string list\<close>.
\<close>

type_synonym outcome = "error + game \<times> string list"

definition key :: item where
  "key = \<lparr>item.name = ''key'', item.description = ''A rusty iron key'', takeable = True\<rparr>"

text \<open>The item that \<open>setup_game\<close> binds to \<open>note\<close>.\<close>

definition note_item :: item where
  "note_item = \<lparr>item.name = ''note'',
            item.description = ''A weathered piece of parchment with writing on it'',
            takeable = False\<rparr>"

definition room1 :: room where
  "room1 =
     (Room_add_item
        (Room_init ''Starting Chamber''
           (''You find yourself in a dimly lit stone chamber. The walls are cold and damp.\<newline>''
            @ ''A heavy wooden door stands to the north.''))
        key)
     \<lparr>north := Some Room2, north_door_locked := True\<rparr>"

definition room2 :: room where
  "room2 =
     (Room_add_item
        (Room_init ''Treasury Room''
           (''You enter a magnificent treasury filled with ancient artifacts and golden treasures.\<newline>''
            @ ''The room sparkles with an otherworldly glow.''))
        note_item)
     \<lparr>south := Some Room1, north := Some Room3\<rparr>"

definition room3 :: room where
  "room3 =
     (Room_init ''Enemy Arena''
        (''You step into a vast arena. The air is thick with tension.\<newline>''
         @ ''A menacing shadow moves in the darkness ahead!''))
     \<lparr>south := Some Room2\<rparr>"

definition setup_game :: "game \<Rightarrow> game" where
  "setup_game g =
     g\<lparr>store := (\<lambda>r. case r of Room1 \<Rightarrow> room1 | Room2 \<Rightarrow> room2 | Room3 \<Rightarrow> room3),
       rooms := [''room1'' \<mapsto> Room1, ''room2'' \<mapsto> Room2, ''room3'' \<mapsto> Room3],
       current_room := Some Room1\<rparr>"

text \<open>
  \<open>Game.__init__\<close>. No Room object exists before \<open>setup_game\<close> runs, and it replaces
  the whole store, so the store given here is never read.
\<close>

definition Game_init :: game where
  "Game_init =
     setup_game
       \<lparr>player = Player_init, current_room = None, rooms = Map.empty,
        store = (\<lambda>_. Room_init [] []), door_unlocked = False, password = ''SHADOW'',
        game_over = False, game_won = False, in_combat = False, enemy = None,
        enemy_defeated = False\<rparr>"

definition show_intro :: "game \<Rightarrow> error + string list" where
  "show_intro g =
     (case current_room g of
        None \<Rightarrow> Inl AttributeError
      | Some c \<Rightarrow>
          Inr [''\<newline>'' @ replicate 60 (CHR ''=''),
               ''         WELCOME TO THE SHADOW DUNGEON'',
               replicate 60 (CHR ''=''),
               ''\<newline>You awaken in a mysterious chamber with no memory of how you'',
               ''arrived here. Your only choice is to venture forward and'',
               ''discover what lies ahead...'',
               ''\<newline>Type 'help' for a list of commands.'',
               replicate 60 (CHR ''=''),
               get_full_description (store g c)])"

definition help_text :: string where
  "help_text =
     ''\<newline>=== Available Commands ===\<newline>''
     @ ''\<newline>Navigation:\<newline>''
     @ ''  go north / go south  - Move between rooms\<newline>''
     @ ''  look                 - Examine current room\<newline>''
     @ ''\<newline>Interaction:\<newline>''
     @ ''  take key             - Pick up the key\<newline>''
     @ ''  pick up key          - Pick up the key\<newline>''
     @ ''  read note            - Read the note\<newline>''
     @ ''  examine note         - Read the note\<newline>''
     @ ''  inventory / i        - Check your items\<newline>''
     @ ''  unlock door with [password] - Unlock the door\<newline>''
     @ ''  open door            - Open the door\<newline>''
     @ ''\<newline>Combat:\<newline>''
     @ ''  attack               - Attack the enemy\<newline>''
     @ ''\<newline>Utility:\<newline>''
     @ ''  help                 - Show this help message\<newline>''
     @ ''  quit                 - Exit game\<newline>''"

definition show_help :: "string list" where
  "show_help = [help_text]"

definition start_combat :: "game \<Rightarrow> game \<times> string list" where
  "start_combat g =
     (let e = Enemy_init ''Dark Warrior'' 10 1 4;
          g' = g\<lparr>enemy := Some e, in_combat := True\<rparr>
      in (g',
          [''\<newline>'' @ replicate 60 (CHR ''!''),
           ''  A DARK WARRIOR EMERGES FROM THE SHADOWS!'',
           replicate 60 (CHR ''!''),
           ''\<newline>The enemy blocks your path. You must fight!'',
           ''\<newline>Enemy Health: '' @ str (enemy.health e) @ ''/'' @ str (enemy.max_health e)
             @ '' HP'',
           ''Your Health: '' @ str (player.health (player g')) @ ''/''
             @ str (player.max_health (player g')) @ '' HP'',
           ''\<newline>Type 'attack' to fight!'']))"

definition party_popper :: string where
  "party_popper = [CHR 0xF0, CHR 0x9F, CHR 0x8E, CHR 0x89]"

definition combat_turn :: "game \<Rightarrow> nat \<times> nat \<Rightarrow> outcome" where
  "combat_turn g rnd =
     (case enemy g of
        None \<Rightarrow> Inr (g, [])
      | Some e \<Rightarrow>
          if \<not> in_combat g then Inr (g, [])
          else
            (case Player_attack (player g) (fst rnd) of
               Inl err \<Rightarrow> Inl err
             | Inr player_damage \<Rightarrow>
                 let e = Enemy_take_damage e player_damage;
                     g = g\<lparr>enemy := Some e\<rparr>;
                     out1 =
                       [''\<newline>You attack the '' @ enemy.name e @ '' for ''
                          @ str player_damage @ '' damage!'',
                        ''Enemy Health: '' @ str (enemy.health e) @ ''/''
                          @ str (enemy.max_health e) @ '' HP'']
                 in
                   if \<not> is_alive e then
                     Inr (g\<lparr>in_combat := False, enemy_defeated := True, game_won := True,
                            game_over := True\<rparr>,
                          out1 @
                          [''\<newline>'' @ replicate 60 (CHR ''=''),
                           ''  VICTORY!'',
                           replicate 60 (CHR ''=''),
                           ''\<newline>You defeated the '' @ enemy.name e @ ''!'',
                           ''\<newline>'' @ party_popper @ '' CONGRATULATIONS! YOU WIN! ''
                             @ party_popper,
                           ''\<newline>You have conquered the Shadow Dungeon!'',
                           replicate 60 (CHR ''='')])
                   else
                     (case Enemy_attack e (snd rnd) of
                        Inl err \<Rightarrow> Inl err
                      | Inr enemy_damage \<Rightarrow>
                          let g = g\<lparr>player := Player_take_damage (player g) enemy_damage\<rparr>;
                              out2 =
                                [''\<newline>The '' @ enemy.name e @ '' strikes back for ''
                                   @ str enemy_damage @ '' damage!'',
                                 ''Your Health: '' @ str (player.health (player g)) @ ''/''
                                   @ str (player.max_health (player g)) @ '' HP'']
                          in
                            if player.health (player g) \<le> 0 then
                              Inr (g\<lparr>in_combat := False, game_over := True\<rparr>,
                                   out1 @ out2 @
                                   [''\<newline>'' @ replicate 60 (CHR ''=''),
                                    ''  DEFEAT!'',
                                    replicate 60 (CHR ''=''),
                                    ''\<newline>You have been defeated. Game Over.'',
                                    ''\<newline>The darkness consumes you...'',
                                    replicate 60 (CHR ''='')])
                            else Inr (g, out1 @ out2 @ [''\<newline>What will you do?'']))))"

definition move :: "game \<Rightarrow> string \<Rightarrow> outcome" where
  "move g direction =
     (let direction = lower direction in
      if direction = ''north'' then
        (case current_room g of
           None \<Rightarrow> Inl AttributeError
         | Some c \<Rightarrow>
             (case north (store g c) of
                Some n \<Rightarrow>
                  if north_door_locked (store g c)
                  then Inr (g, [''\<newline>The door is locked. You need to unlock it first.''])
                  else
                    let g = g\<lparr>current_room := Some n\<rparr>;
                        out = [get_full_description (store g n)]
                    in if room.name (store g n) = ''Enemy Arena'' \<and> \<not> enemy_defeated g
                       then (case start_combat g of (g, out') \<Rightarrow> Inr (g, out @ out'))
                       else Inr (g, out)
              | None \<Rightarrow> Inr (g, [''\<newline>You can't go that way.''])))
      else if direction = ''south'' then
        (case current_room g of
           None \<Rightarrow> Inl AttributeError
         | Some c \<Rightarrow>
             (case south (store g c) of
                Some n \<Rightarrow>
                  let g = g\<lparr>current_room := Some n\<rparr>
                  in Inr (g, [get_full_description (store g n)])
              | None \<Rightarrow> Inr (g, [''\<newline>You can't go that way.''])))
      else Inr (g, [''\<newline>You can only go 'north' or 'south'.'']))"

definition take_key :: "game \<Rightarrow> outcome" where
  "take_key g =
     (case current_room g of
        None \<Rightarrow> Inl AttributeError
      | Some c \<Rightarrow>
          (case Room_get_item (store g c) ''key'' of
             Some k \<Rightarrow>
               let r = fst (Room_remove_item (store g c) ''key'')
               in Inr (g\<lparr>store := (store g)(c := r), player := Player_add_item (player g) k\<rparr>,
                       [''\<newline>You pick up the rusty iron key and add it to your inventory.''])
           | None \<Rightarrow> Inr (g, [''\<newline>There's no key here.''])))"

definition read_note :: "game \<Rightarrow> outcome" where
  "read_note g =
     (case current_room g of
        None \<Rightarrow> Inl AttributeError
      | Some c \<Rightarrow>
          (case Room_get_item (store g c) ''note'' of
             Some n \<Rightarrow>
               Inr (g, [''\<newline>You read the note:'',
                        replicate 40 (CHR ''=''),
                        ''  The password is: '' @ password g,
                        replicate 40 (CHR ''='')])
           | None \<Rightarrow> Inr (g, [''\<newline>There's no note here to read.''])))"

definition unlock_door :: "game \<Rightarrow> string \<Rightarrow> outcome" where
  "unlock_door g pw =
     (if door_unlocked g then Inr (g, [''\<newline>The door is already unlocked.''])
      else if \<not> has_item (player g) ''key'' then Inr (g, [''\<newline>You don't have a key.''])
      else if pw = password g then
        (case rooms g ''room1'' of
           None \<Rightarrow> Inl KeyError
         | Some r \<Rightarrow>
             Inr (g\<lparr>door_unlocked := True,
                    store := (store g)(r := (store g r)\<lparr>north_door_locked := False\<rparr>)\<rparr>,
                  [''\<newline>The door unlocks with a click! You can now go north.'']))
      else Inr (g, [''\<newline>The password is incorrect.'']))"

definition open_door :: "game \<Rightarrow> outcome" where
  "open_door g =
     (case current_room g of
        None \<Rightarrow> Inl AttributeError
      | Some c \<Rightarrow>
          if room.name (store g c) = ''Starting Chamber'' then
            (if door_unlocked g \<or> \<not> north_door_locked (store g c)
             then Inr (g, [''\<newline>The door is already open. You can go north.''])
             else Inr (g, [''\<newline>The door is locked. You need to unlock it first.'']))
          else Inr (g, [''\<newline>There's no door to open here.'']))"

text \<open>
  \<open>process_command\<close>. \<open>rnd\<close> is the entropy for the two rolls of a combat round. The
  source also computes \<open>parts\<close> and \<open>action\<close>, which it never uses.
\<close>

definition process_command :: "game \<Rightarrow> string \<Rightarrow> nat \<times> nat \<Rightarrow> outcome" where
  "process_command g command rnd =
     (let command = strip (lower command) in
      if command = [] then Inr (g, [])
      else if in_combat g then
        (if command = ''attack'' then combat_turn g rnd
         else Inr (g, [''\<newline>You're in combat! You can only 'attack' or 'quit'.'']))
      else if command = ''help'' then Inr (g, show_help)
      else if command \<in> set [''quit'', ''exit'', ''q''] then
        Inr (g\<lparr>game_over := True\<rparr>, [''\<newline>Thanks for playing! Goodbye.''])
      else if startswith command ''go '' then move g (strip (drop 3 command))
      else if command = ''look'' then
        (case current_room g of
           None \<Rightarrow> Inl AttributeError
         | Some c \<Rightarrow> Inr (g, [get_full_description (store g c)]))
      else if command \<in> set [''inventory'', ''i''] then Inr (g, [show_inventory (player g)])
      else if command \<in> set [''take key'', ''pick up key'', ''get key''] then take_key g
      else if command \<in> set [''read note'', ''examine note'', ''look at note''] then read_note g
      else if startswith command ''unlock door with '' then
        unlock_door g (upper (strip (drop 17 command)))
      else if command \<in> set [''open door'', ''open north door''] then open_door g
      else Inr (g, [''\<newline>I don't understand that command. Type 'help' for available commands.'']))"

text \<open>
  The loop of \<open>run\<close> over the lines that \<open>input\<close> returns, each with the entropy of its
  turn: a line is read and processed only while \<open>game_over\<close> is false, and the end of
  the input raises EOFError, which \<open>run\<close> reports before it stops. The prompt is written
  by \<open>input\<close>, not by \<open>print\<close>, and is not recorded; an interrupt from the keyboard is
  outside the model.
\<close>

fun run_loop :: "game \<Rightarrow> (string \<times> nat \<times> nat) list \<Rightarrow> outcome" where
  "run_loop g [] =
     (if game_over g then Inr (g, [])
      else Inr (g, [''\<newline>\<newline>Game ended. Thanks for playing!'']))"
| "run_loop g ((line, rnd) # rest) =
     (if game_over g then Inr (g, [])
      else
        (case process_command g (strip line) rnd of
           Inl err \<Rightarrow> Inl err
         | Inr (g', out) \<Rightarrow>
             (case run_loop g' rest of
                Inl err \<Rightarrow> Inl err
              | Inr (g'', out') \<Rightarrow> Inr (g'', out @ out'))))"

definition run :: "game \<Rightarrow> (string \<times> nat \<times> nat) list \<Rightarrow> outcome" where
  "run g inputs =
     (case show_intro g of
        Inl err \<Rightarrow> Inl err
      | Inr intro \<Rightarrow>
          (case run_loop g inputs of
             Inl err \<Rightarrow> Inl err
           | Inr (g', out) \<Rightarrow> Inr (g', intro @ out)))"

text \<open>\<open>main\<close>: a new game, run on the given input.\<close>

definition main :: "(string \<times> nat \<times> nat) list \<Rightarrow> outcome" where
  "main inputs = run Game_init inputs"

section \<open>Reading outcomes, states of a run\<close>

definition final_state :: "outcome \<Rightarrow> game option" where
  "final_state res = (case res of Inl _ \<Rightarrow> None | Inr (g, _) \<Rightarrow> Some g)"

definition printed :: "outcome \<Rightarrow> string list" where
  "printed res = (case res of Inl _ \<Rightarrow> [] | Inr (_, out) \<Rightarrow> out)"

text \<open>
  A session that takes the key, unlocks the door and walks into the arena, and the state
  it reaches: combat has started and no blow has been struck.
\<close>

definition to_arena :: "(string \<times> nat \<times> nat) list" where
  "to_arena =
     [(''take key'', 0, 0), (''unlock door with shadow'', 0, 0), (''go north'', 0, 0),
      (''go north'', 0, 0)]"

text \<open>The states of that session after the key is taken and after the door is unlocked.\<close>

definition keyed_game :: game where
  "keyed_game =
     Game_init
       \<lparr>player := Player_add_item Player_init key,
        store := (store Game_init)(Room1 := room1\<lparr>items := []\<rparr>)\<rparr>"

definition unlocked_game :: game where
  "unlocked_game =
     keyed_game
       \<lparr>door_unlocked := True,
        store := (store keyed_game)
                   (Room1 := (store keyed_game Room1)\<lparr>north_door_locked := False\<rparr>)\<rparr>"

definition arena_game :: game where
  "arena_game =
     Game_init
       \<lparr>player := Player_add_item Player_init key,
        current_room := Some Room3,
        store := (store Game_init)(Room1 := room1\<lparr>items := [], north_door_locked := False\<rparr>),
        door_unlocked := True,
        in_combat := True,
        enemy := Some (Enemy_init ''Dark Warrior'' 10 1 4)\<rparr>"

text \<open>
  The same session followed by two attacks in which the player rolls 6 and the enemy
  rolls 1: the second attack wins the game.
\<close>

definition to_victory :: "(string \<times> nat \<times> nat) list" where
  "to_victory = to_arena @ [(''attack'', 5, 0), (''attack'', 5, 0)]"

definition victory_game :: game where
  "victory_game =
     arena_game
       \<lparr>player := (player arena_game)\<lparr>player.health := 19\<rparr>,
        enemy := Some ((Enemy_init ''Dark Warrior'' 10 1 4)\<lparr>enemy.health := 0\<rparr>),
        in_combat := False, enemy_defeated := True, game_won := True, game_over := True\<rparr>"

text \<open>
  Two states of combat: after the first of these attacks, and after four rounds in which
  the player rolls 1 and the enemy rolls 4.
\<close>

definition wounded_game :: game where
  "wounded_game =
     arena_game
       \<lparr>player := (player arena_game)\<lparr>player.health := 19\<rparr>,
        enemy := Some ((Enemy_init ''Dark Warrior'' 10 1 4)\<lparr>enemy.health := 4\<rparr>)\<rparr>"

definition to_dying :: "(string \<times> nat \<times> nat) list" where
  "to_dying =
     to_arena @ [(''attack'', 0, 3), (''attack'', 0, 3), (''attack'', 0, 3), (''attack'', 0, 3)]"

definition dying_game :: game where
  "dying_game =
     arena_game
       \<lparr>player := (player arena_game)\<lparr>player.health := 4\<rparr>,
        enemy := Some ((Enemy_init ''Dark Warrior'' 10 1 4)\<lparr>enemy.health := 6\<rparr>)\<rparr>"

text \<open>
  The line by which \<open>start_combat\<close>, and nothing else, announces the enemy: its
  occurrences in the output of a run count the times combat started.
\<close>

definition emerges :: string where
  "emerges = ''  A DARK WARRIOR EMERGES FROM THE SHADOWS!''"

section \<open>Invariants of a run\<close>

text \<open>
  The flags of the game: a win ends the game with the enemy defeated; combat is on only
  while the game runs and a living enemy is there; and an enemy, once there, keeps the
  game in combat until the game is over.
\<close>

definition flags_inv :: "game \<Rightarrow> bool" where
  "flags_inv g \<longleftrightarrow>
     (game_won g \<longrightarrow> game_over g \<and> enemy_defeated g) \<and>
     (in_combat g \<longrightarrow> \<not> game_over g \<and> (\<exists>e. enemy g = Some e \<and> 0 < enemy.health e)) \<and>
     (enemy g \<noteq> None \<and> \<not> game_over g \<longrightarrow> in_combat g)"

text \<open>The combat figures: those of \<open>Player.__init__\<close> and of the enemy of \<open>start_combat\<close>.\<close>

definition stats_inv :: "game \<Rightarrow> bool" where
  "stats_inv g \<longleftrightarrow>
     player.min_damage (player g) = 1 \<and> player.max_damage (player g) = 6 \<and>
     player.max_health (player g) = 20 \<and>
     0 \<le> player.health (player g) \<and> player.health (player g) \<le> 20 \<and>
     (case enemy g of
        None \<Rightarrow> True
      | Some e \<Rightarrow>
          enemy.name e = ''Dark Warrior'' \<and> enemy.min_damage e = 1 \<and> enemy.max_damage e = 4 \<and>
          enemy.max_health e = 10 \<and> 0 \<le> enemy.health e \<and> enemy.health e \<le> 10)"

text \<open>
  The world: the rooms are those of \<open>setup_game\<close> but for the key, which lies in the
  start room or is the only item of the inventory, and for the lock of the start room,
  which is open exactly when \<open>door_unlocked\<close> is set; combat takes place in the arena.
\<close>

definition world_inv :: "game \<Rightarrow> bool" where
  "world_inv g \<longleftrightarrow>
     rooms g = rooms Game_init \<and>
     current_room g \<noteq> None \<and>
     store g Room2 = room2 \<and>
     store g Room3 = room3 \<and>
     (store g Room1 = room1\<lparr>north_door_locked := \<not> door_unlocked g\<rparr>
        \<and> inventory (player g) = []
      \<or> store g Room1 = room1\<lparr>items := [], north_door_locked := \<not> door_unlocked g\<rparr>
        \<and> inventory (player g) = [key]) \<and>
     (in_combat g \<longrightarrow> current_room g = Some Room3)"

text \<open>
  What no command undoes: the table of rooms and the password stay, \<open>door_unlocked\<close>
  stays set, and no lock is ever set again.
\<close>

definition lock_stable :: "game \<Rightarrow> game \<Rightarrow> bool" where
  "lock_stable g g' \<longleftrightarrow>
     rooms g' = rooms g \<and> password g' = password g \<and>
     (door_unlocked g \<longrightarrow> door_unlocked g') \<and>
     (\<forall>r. north_door_locked (store g' r) \<longrightarrow> north_door_locked (store g r))"

section \<open>Facts about text and rolls\<close>

lemmas text_defs = strip_def lower_def upper_def lower_char_def upper_char_def isspace_def
  whitespace_def ascii_uppercase_def ascii_lowercase_def startswith_def

lemma isspace_lower_char: "isspace c \<Longrightarrow> lower_char c = c"
proof -
  assume "isspace c"
  then have "c \<in> set whitespace" by (simp add: isspace_def)
  then show ?thesis
    unfolding whitespace_def set_simps
    by (elim insertE emptyE) (simp_all add: lower_char_def ascii_uppercase_def ascii_lowercase_def)
qed

lemma strip_blank: "list_all isspace s \<Longrightarrow> strip (lower s) = []"
proof -
  assume a: "list_all isspace s"
  then have l: "lower s = s"
    by (induction s) (simp_all add: lower_def isspace_lower_char)
  from a have d: "dropWhile isspace s = []"
    by (induction s) simp_all
  show ?thesis unfolding strip_def l d by simp
qed

text \<open>A roll lies in its range, and every value of the range is rolled by some entropy.\<close>

lemma randint_range: "a \<le> b \<Longrightarrow> \<exists>v. randint a b r = Inr v \<and> a \<le> v \<and> v \<le> b"
proof -
  assume ab: "a \<le> b"
  then have pos: "0 < b - a + 1" by simp
  have "0 \<le> int r mod (b - a + 1)" using pos by (rule pos_mod_sign)
  moreover have "int r mod (b - a + 1) < b - a + 1" using pos by (rule pos_mod_bound)
  ultimately show ?thesis using ab by (simp add: randint_def)
qed

lemma randint_onto: "a \<le> v \<Longrightarrow> v \<le> b \<Longrightarrow> randint a b (nat (v - a)) = Inr v"
  by (simp add: randint_def)

section \<open>Damage\<close>

text \<open>
  Claim C3, as amended. For a player and an enemy alike and every integer \<open>d\<close>, the health
  after \<open>take_damage(d)\<close> is \<open>max(0, health_before - d)\<close> and \<open>max_health\<close> is untouched.
  The health stays at or below \<open>max_health\<close> when the damage is not negative and the
  health was at or below a non-negative \<open>max_health\<close> before; \<open>take_damage\<close> has no
  upper clamp, so a negative damage raises the health.
\<close>

theorem take_damage_health:
  "player.health (Player_take_damage p d) = max 0 (player.health p - d) \<and>
   enemy.health (Enemy_take_damage e d) = max 0 (enemy.health e - d) \<and>
   player.max_health (Player_take_damage p d) = player.max_health p \<and>
   enemy.max_health (Enemy_take_damage e d) = enemy.max_health e \<and>
   (0 \<le> d \<and> 0 \<le> player.max_health p \<and> player.health p \<le> player.max_health p \<longrightarrow>
      player.health (Player_take_damage p d) \<le> player.max_health (Player_take_damage p d)) \<and>
   (0 \<le> d \<and> 0 \<le> enemy.max_health e \<and> enemy.health e \<le> enemy.max_health e \<longrightarrow>
      enemy.health (Enemy_take_damage e d) \<le> enemy.max_health (Enemy_take_damage e d))"
  by (simp add: Player_take_damage_def Enemy_take_damage_def Let_def)

theorem take_damage_health_witness:
  "player.health (Player_take_damage Player_init 3) = 17 \<and>
   player.health (Player_take_damage Player_init 25) = 0 \<and>
   enemy.health (Enemy_take_damage (Enemy_init ''Dark Warrior'' 10 1 4) 6) = 4 \<and>
   player.health (Player_take_damage Player_init 3)
     \<le> player.max_health (Player_take_damage Player_init 3) \<and>
   enemy.health (Enemy_take_damage (Enemy_init ''Dark Warrior'' 10 1 4) 6)
     \<le> enemy.max_health (Enemy_take_damage (Enemy_init ''Dark Warrior'' 10 1 4) 6)"
  using take_damage_health [of Player_init 3 "Enemy_init ''Dark Warrior'' 10 1 4"]
    take_damage_health [of Player_init 25 "Enemy_init ''Dark Warrior'' 10 1 4"]
    take_damage_health [of Player_init 6 "Enemy_init ''Dark Warrior'' 10 1 4"]
  by (simp add: Player_init_def Enemy_init_def)

text \<open>
  The claim as written fails for a negative damage: a new player, at 20 of 20 health,
  is at 21 after \<open>take_damage(-1)\<close>.
\<close>

theorem take_damage_negative_counterexample:
  "player.health (Player_take_damage Player_init (- 1)) = 21 \<and>
   player.max_health (Player_take_damage Player_init (- 1)) = 20 \<and>
   \<not> player.health (Player_take_damage Player_init (- 1))
       \<le> player.max_health (Player_take_damage Player_init (- 1))"
  by (simp add: Player_take_damage_def Player_init_def Let_def)

section \<open>Blank lines\<close>

text \<open>
  Claim C9. In every game state, in combat or not, a line that is empty or holds only
  whitespace changes nothing and prints nothing: neither the reminder of combat nor
  the answer to an unknown command.
\<close>

theorem blank_line_ignored:
  "list_all isspace command \<Longrightarrow> process_command g command rnd = Inr (g, [])"
  by (simp add: process_command_def strip_blank)

theorem blank_line_ignored_witness:
  "list_all isspace [CHR 0x09, CHR '' '', CHR '' ''] \<and>
   process_command arena_game [CHR 0x09, CHR '' '', CHR '' ''] (0, 0) = Inr (arena_game, [])"
  using blank_line_ignored [of "[CHR 0x09, CHR '' '', CHR '' '']" arena_game "(0, 0)"]
  by (simp add: isspace_def whitespace_def)

section \<open>The command interpreter\<close>

text \<open>
  The ways in which \<open>process_command\<close> returns: the branches of its chain of tests, in
  the order of the source.
\<close>

lemma process_command_cases [consumes 1, case_names Blank Attack Reminder Help Quit Go Look Inventory Take Read Unlock Open Unknown]:
  assumes "process_command g command rnd = Inr (g', out)"
  obtains
    "g' = g" "out = []"
  | "in_combat g" "combat_turn g rnd = Inr (g', out)"
  | "in_combat g" "g' = g" "out = [''\<newline>You're in combat! You can only 'attack' or 'quit'.'']"
  | "\<not> in_combat g" "g' = g" "out = show_help"
  | "\<not> in_combat g" "g' = g\<lparr>game_over := True\<rparr>" "out = [''\<newline>Thanks for playing! Goodbye.'']"
  | d where "\<not> in_combat g" "move g d = Inr (g', out)"
  | c where "\<not> in_combat g" "g' = g" "current_room g = Some c" "out = [get_full_description (store g c)]"
  | "\<not> in_combat g" "g' = g" "out = [show_inventory (player g)]"
  | "\<not> in_combat g" "take_key g = Inr (g', out)"
  | "\<not> in_combat g" "read_note g = Inr (g', out)"
  | p where "\<not> in_combat g" "unlock_door g p = Inr (g', out)"
  | "\<not> in_combat g" "open_door g = Inr (g', out)"
  | "\<not> in_combat g" "g' = g"
      "out = [''\<newline>I don't understand that command. Type 'help' for available commands.'']"
proof -
  define c where "c = strip (lower command)"
  define m1 where "m1 = [''\<newline>You're in combat! You can only 'attack' or 'quit'.'']"
  define m2 where "m2 = [''\<newline>Thanks for playing! Goodbye.'']"
  define m3 where "m3 = [''\<newline>I don't understand that command. Type 'help' for available commands.'']"
  define b0 where "b0 \<longleftrightarrow> c = []"
  define b1 where "b1 \<longleftrightarrow> c = ''attack''"
  define b2 where "b2 \<longleftrightarrow> c = ''help''"
  define b3 where "b3 \<longleftrightarrow> c \<in> set [''quit'', ''exit'', ''q'']"
  define b4 where "b4 \<longleftrightarrow> startswith c ''go ''"
  define b5 where "b5 \<longleftrightarrow> c = ''look''"
  define b6 where "b6 \<longleftrightarrow> c \<in> set [''inventory'', ''i'']"
  define b7 where "b7 \<longleftrightarrow> c \<in> set [''take key'', ''pick up key'', ''get key'']"
  define b8 where "b8 \<longleftrightarrow> c \<in> set [''read note'', ''examine note'', ''look at note'']"
  define b9 where "b9 \<longleftrightarrow> startswith c ''unlock door with ''"
  define b10 where "b10 \<longleftrightarrow> c \<in> set [''open door'', ''open north door'']"
  have eq: "process_command g command rnd =
     (if b0 then Inr (g, [])
      else if in_combat g then (if b1 then combat_turn g rnd else Inr (g, m1))
      else if b2 then Inr (g, show_help)
      else if b3 then Inr (g\<lparr>game_over := True\<rparr>, m2)
      else if b4 then move g (strip (drop 3 c))
      else if b5 then
        (case current_room g of
           None \<Rightarrow> Inl AttributeError
         | Some r \<Rightarrow> Inr (g, [get_full_description (store g r)]))
      else if b6 then Inr (g, [show_inventory (player g)])
      else if b7 then take_key g
      else if b8 then read_note g
      else if b9 then unlock_door g (upper (strip (drop 17 c)))
      else if b10 then open_door g
      else Inr (g, m3))"
    unfolding process_command_def Let_def c_def m1_def m2_def m3_def b0_def b1_def b2_def b3_def
      b4_def b5_def b6_def b7_def b8_def b9_def b10_def ..
  note rules = that [folded m1_def m2_def m3_def]
  from assms have res: "(if b0 then Inr (g, [])
      else if in_combat g then (if b1 then combat_turn g rnd else Inr (g, m1))
      else if b2 then Inr (g, show_help)
      else if b3 then Inr (g\<lparr>game_over := True\<rparr>, m2)
      else if b4 then move g (strip (drop 3 c))
      else if b5 then
        (case current_room g of
           None \<Rightarrow> Inl AttributeError
         | Some r \<Rightarrow> Inr (g, [get_full_description (store g r)]))
      else if b6 then Inr (g, [show_inventory (player g)])
      else if b7 then take_key g
      else if b8 then read_note g
      else if b9 then unlock_door g (upper (strip (drop 17 c)))
      else if b10 then open_door g
      else Inr (g, m3)) = Inr (g', out)"
    unfolding eq .
  consider (k0) b0
    | (k1) "\<not> b0" "in_combat g" b1
    | (k2) "\<not> b0" "in_combat g" "\<not> b1"
    | (k3) "\<not> b0" "\<not> in_combat g" b2
    | (k4) "\<not> b0" "\<not> in_combat g" "\<not> b2" b3
    | (k5) "\<not> b0" "\<not> in_combat g" "\<not> b2" "\<not> b3" b4
    | (k6) "\<not> b0" "\<not> in_combat g" "\<not> b2" "\<not> b3" "\<not> b4" b5
    | (k7) "\<not> b0" "\<not> in_combat g" "\<not> b2" "\<not> b3" "\<not> b4" "\<not> b5" b6
    | (k8) "\<not> b0" "\<not> in_combat g" "\<not> b2" "\<not> b3" "\<not> b4" "\<not> b5" "\<not> b6" b7
    | (k9) "\<not> b0" "\<not> in_combat g" "\<not> b2" "\<not> b3" "\<not> b4" "\<not> b5" "\<not> b6" "\<not> b7" b8
    | (k10) "\<not> b0" "\<not> in_combat g" "\<not> b2" "\<not> b3" "\<not> b4" "\<not> b5" "\<not> b6" "\<not> b7"
        "\<not> b8" b9
    | (k11) "\<not> b0" "\<not> in_combat g" "\<not> b2" "\<not> b3" "\<not> b4" "\<not> b5" "\<not> b6" "\<not> b7"
        "\<not> b8" "\<not> b9" b10
    | (k12) "\<not> b0" "\<not> in_combat g" "\<not> b2" "\<not> b3" "\<not> b4" "\<not> b5" "\<not> b6" "\<not> b7"
        "\<not> b8" "\<not> b9" "\<not> b10"
    by blast
  then show thesis
  proof cases
    case k0 with res show ?thesis by (intro rules(1)) auto
  next
    case k1 with res show ?thesis by (intro rules(2)) auto
  next
    case k2 with res show ?thesis by (intro rules(3)) auto
  next
    case k3 with res show ?thesis by (intro rules(4)) auto
  next
    case k4 with res show ?thesis by (intro rules(5)) auto
  next
    case k5 with res show ?thesis by (intro rules(6) [of "strip (drop 3 c)"]) auto
  next
    case k6
    with res obtain r where "current_room g = Some r" "g' = g"
      "out = [get_full_description (store g r)]"
      by (cases "current_room g") auto
    with k6 show ?thesis by (intro rules(7) [of r]) auto
  next
    case k7 with res show ?thesis by (intro rules(8)) auto
  next
    case k8 with res show ?thesis by (intro rules(9)) auto
  next
    case k9 with res show ?thesis by (intro rules(10)) auto
  next
    case k10 with res show ?thesis
      by (intro rules(11) [of "upper (strip (drop 17 c))"]) auto
  next
    case k11 with res show ?thesis by (intro rules(12)) auto
  next
    case k12 with res show ?thesis by (intro rules(13)) auto
  qed
qed

text \<open>
  Only the trimmed, lowercased line matters; in combat the line is an attack, blank or
  answered by the reminder, and outside combat \<open>go north\<close> and the three ways of
  taking the key reach \<open>move\<close> and \<open>take_key\<close>.
\<close>

lemma process_command_cong:
  "strip (lower command) = strip (lower c) \<Longrightarrow>
   process_command g command rnd = process_command g c rnd"
  by (simp add: process_command_def)

lemma combat_dispatch:
  "in_combat g \<Longrightarrow>
   process_command g command rnd =
     (if strip (lower command) = [] then Inr (g, [])
      else if strip (lower command) = ''attack'' then combat_turn g rnd
      else Inr (g, [''\<newline>You're in combat! You can only 'attack' or 'quit'.'']))"
  by (simp add: process_command_def)

lemma go_north_dispatch:
  "strip (lower command) = ''go north'' \<Longrightarrow> \<not> in_combat g \<Longrightarrow>
   process_command g command rnd = move g ''north''"
  by (simp add: process_command_def Let_def startswith_def) (simp add: text_defs)

lemma take_key_dispatch:
  "strip (lower command) \<in> set [''take key'', ''pick up key'', ''get key''] \<Longrightarrow> \<not> in_combat g \<Longrightarrow>
   process_command g command rnd = take_key g"
  by (auto simp add: process_command_def Let_def startswith_def)

lemma norm_simps:
  "strip (lower '''') = ''''"
  "strip (lower ''go north'') = ''go north''"
  "strip (lower ''take key'') = ''take key''"
  "strip (lower ''attack'') = ''attack''"
  "strip (lower ''quit'') = ''quit''"
  "strip (lower ''exit'') = ''exit''"
  "strip (lower ''q'') = ''q''"
  "strip (lower ''  Go NORTH'') = ''go north''"
  by (simp_all add: text_defs)

section \<open>Sessions\<close>

text \<open>The state a run ends in, without its output.\<close>

lemma final_state_Inr [simp]: "final_state (Inr (g, out)) = Some g"
  by (simp add: final_state_def)

lemma final_state_Inl [simp]: "final_state (Inl e) = None"
  by (simp add: final_state_def)

lemma final_state_run_loop_Nil [simp]: "final_state (run_loop g []) = Some g"
  by simp

lemma final_state_run_loop_Cons:
  "final_state (run_loop g ((line, rnd) # rest)) =
     (if game_over g then Some g
      else case final_state (process_command g (strip line) rnd) of
             None \<Rightarrow> None
           | Some g' \<Rightarrow> final_state (run_loop g' rest))"
  by (auto simp add: final_state_def split: sum.splits)

lemma final_state_run:
  "final_state (run g inputs) =
     (if current_room g = None then None else final_state (run_loop g inputs))"
  by (auto simp add: run_def show_intro_def final_state_def split: sum.splits option.splits)

lemma final_state_run_loop_append:
  "final_state (run_loop g (xs @ ys)) =
     (case final_state (run_loop g xs) of
        None \<Rightarrow> None
      | Some g' \<Rightarrow> final_state (run_loop g' ys))"
proof (induction xs arbitrary: g)
  case Nil
  show ?case by simp
next
  case (Cons x xs)
  obtain line rnd where x: "x = (line, rnd)" by (cases x)
  show ?case
  proof (cases "game_over g")
    case True
    then show ?thesis
      by (cases ys) (auto simp add: x final_state_run_loop_Cons)
  next
    case False
    then show ?thesis
      unfolding x append_Cons final_state_run_loop_Cons
      by (simp add: Cons.IH del: run_loop.simps split: option.splits)
  qed
qed

lemmas world_defs = Game_init_def setup_game_def room1_def room2_def room3_def Room_add_item_def
  Room_init_def key_def note_item_def Player_init_def Player_add_item_def Enemy_init_def

lemma Game_init_simps:
  "\<not> in_combat Game_init" "current_room Game_init = Some Room1"
  "north (store Game_init Room1) = Some Room2" "north_door_locked (store Game_init Room1)"
  "\<not> game_over Game_init" "\<not> door_unlocked Game_init" "password Game_init = ''SHADOW''"
  "rooms Game_init ''room1'' = Some Room1"
  by (simp_all add: world_defs)

lemma arena_reached: "final_state (main to_arena) = Some arena_game"
  by (simp add: main_def to_arena_def final_state_run final_state_run_loop_Cons
      process_command_def text_defs take_key_def unlock_door_def move_def start_combat_def
      Room_get_item_def Room_remove_item_def has_item_def world_defs arena_game_def Let_def)

lemma arena_game_simps:
  "in_combat arena_game" "current_room arena_game = Some Room3"
  "north (store arena_game Room3) = None" "\<not> game_over arena_game"
  by (simp_all add: arena_game_def world_defs)

lemma victory_reached: "final_state (main to_victory) = Some victory_game"
proof -
  have "final_state (run_loop arena_game [(''attack'', 5, 0), (''attack'', 5, 0)])
          = Some victory_game"
    by (simp add: final_state_run_loop_Cons process_command_def text_defs combat_turn_def
        Player_attack_def Enemy_attack_def randint_def Player_take_damage_def
        Enemy_take_damage_def is_alive_def world_defs arena_game_def victory_game_def Let_def)
  moreover have "final_state (run_loop Game_init to_arena) = Some arena_game"
    using arena_reached by (simp add: main_def final_state_run split: if_splits)
  ultimately have "final_state (run_loop Game_init to_victory) = Some victory_game"
    by (simp add: to_victory_def final_state_run_loop_append)
  then show ?thesis
    by (simp add: main_def final_state_run world_defs)
qed

lemma victory_game_simps:
  "\<not> in_combat victory_game" "current_room victory_game = Some Room3"
  "north (store victory_game Room3) = None" "game_over victory_game"
  "enemy victory_game =
     Some \<lparr>enemy.name = ''Dark Warrior'', enemy.health = 0, enemy.max_health = 10,
           enemy.min_damage = 1, enemy.max_damage = 4\<rparr>"
  by (simp_all add: victory_game_def arena_game_def world_defs)

section \<open>Combat mode\<close>

text \<open>
  Claim C7, as amended. While \<open>in_combat\<close> is set, every line that is neither blank nor
  \<open>attack\<close> once trimmed and lowercased prints the reminder that only attacking is
  possible and leaves the whole game state as it is; \<open>quit\<close>, \<open>exit\<close> and \<open>q\<close> are
  such lines and do not set \<open>game_over\<close>. No line other than \<open>attack\<close> changes the state
  (a blank one prints nothing), and \<open>attack\<close> alone runs a combat turn.
\<close>

theorem combat_only_attack:
  assumes "in_combat g"
  shows
    "(strip (lower command) \<noteq> [] \<and> strip (lower command) \<noteq> ''attack'' \<longrightarrow>
        process_command g command rnd =
          Inr (g, [''\<newline>You're in combat! You can only 'attack' or 'quit'.''])) \<and>
     (strip (lower command) \<noteq> ''attack'' \<longrightarrow> final_state (process_command g command rnd) = Some g) \<and>
     (strip (lower command) = ''attack'' \<longrightarrow> process_command g command rnd = combat_turn g rnd) \<and>
     process_command g ''quit'' rnd =
       Inr (g, [''\<newline>You're in combat! You can only 'attack' or 'quit'.'']) \<and>
     process_command g ''exit'' rnd =
       Inr (g, [''\<newline>You're in combat! You can only 'attack' or 'quit'.'']) \<and>
     process_command g ''q'' rnd =
       Inr (g, [''\<newline>You're in combat! You can only 'attack' or 'quit'.''])"
  using assms by (simp add: combat_dispatch norm_simps final_state_def)

theorem combat_only_attack_witness:
  "in_combat arena_game \<and>
   process_command arena_game ''Quit '' (0, 0) =
     Inr (arena_game, [''\<newline>You're in combat! You can only 'attack' or 'quit'.'']) \<and>
   final_state (process_command arena_game ''Quit '' (0, 0)) = Some arena_game \<and>
   process_command arena_game '' ATTACK'' (5, 0) = combat_turn arena_game (5, 0)"
proof -
  have "strip (lower ''Quit '') = ''quit''" "strip (lower '' ATTACK'') = ''attack''"
    by (simp_all add: text_defs)
  then show ?thesis
    using combat_only_attack [of arena_game "''Quit ''" "(0, 0)"]
      combat_only_attack [of arena_game "'' ATTACK''" "(5, 0)"]
    by (simp add: arena_game_simps)
qed

text \<open>
  The claim as written fails for the empty line: in the arena, in combat, it prints
  nothing instead of the reminder.
\<close>

theorem combat_blank_counterexample:
  "final_state (main to_arena) = Some arena_game \<and> in_combat arena_game \<and>
   strip (lower []) \<noteq> ''attack'' \<and>
   process_command arena_game [] (0, 0) \<noteq>
     Inr (arena_game, [''\<newline>You're in combat! You can only 'attack' or 'quit'.''])"
  by (simp add: arena_reached arena_game_simps combat_dispatch norm_simps)

section \<open>Going north\<close>

text \<open>
  Claim C4, as amended. Outside combat, \<open>go north\<close> in a room whose north exit is locked
  reports that the door is locked, and in a room with no north exit reports that the
  player can't go that way; in both cases the whole game state, \<open>current_room\<close>
  included, is left as it is. In combat \<open>go north\<close> is not taken as a move: it prints
  the reminder of combat, and likewise changes nothing.
\<close>

theorem go_north_blocked:
  assumes "strip (lower command) = ''go north''" and "current_room g = Some c"
  shows
    "(\<not> in_combat g \<and> north (store g c) \<noteq> None \<and> north_door_locked (store g c) \<longrightarrow>
        process_command g command rnd =
          Inr (g, [''\<newline>The door is locked. You need to unlock it first.''])) \<and>
     (\<not> in_combat g \<and> north (store g c) = None \<longrightarrow>
        process_command g command rnd = Inr (g, [''\<newline>You can't go that way.''])) \<and>
     (in_combat g \<longrightarrow>
        process_command g command rnd =
          Inr (g, [''\<newline>You're in combat! You can only 'attack' or 'quit'.'']))"
proof (cases "in_combat g")
  case True
  then show ?thesis using assms(1) by (simp add: combat_dispatch)
next
  case False
  then have "process_command g command rnd = move g ''north''"
    using assms(1) by (rule go_north_dispatch [rotated])
  moreover have "lower ''north'' = ''north''" by (simp add: text_defs)
  ultimately show ?thesis using False assms(2) by (auto simp add: move_def)
qed

theorem go_north_blocked_witness:
  "process_command Game_init ''go north'' (0, 0) =
     Inr (Game_init, [''\<newline>The door is locked. You need to unlock it first.'']) \<and>
   process_command victory_game ''go north'' (0, 0) =
     Inr (victory_game, [''\<newline>You can't go that way.'']) \<and>
   process_command arena_game ''go north'' (0, 0) =
     Inr (arena_game, [''\<newline>You're in combat! You can only 'attack' or 'quit'.''])"
  using go_north_blocked [of "''go north''" Game_init Room1 "(0, 0)"]
    go_north_blocked [of "''go north''" victory_game Room3 "(0, 0)"]
    go_north_blocked [of "''go north''" arena_game Room3 "(0, 0)"]
  by (simp add: norm_simps Game_init_simps victory_game_simps arena_game_simps)

text \<open>
  The claim as written fails in combat: the arena has no north exit, and \<open>go north\<close>
  there, in the state the session \<open>to_arena\<close> reaches, does not report that the player
  can't go that way.
\<close>

theorem go_north_in_combat_counterexample:
  "final_state (main to_arena) = Some arena_game \<and>
   current_room arena_game = Some Room3 \<and> north (store arena_game Room3) = None \<and>
   process_command arena_game ''go north'' (0, 0) \<noteq>
     Inr (arena_game, [''\<newline>You can't go that way.''])"
  by (simp add: arena_reached arena_game_simps combat_dispatch norm_simps)

section \<open>The lock\<close>

lemma lock_stable_refl [simp]: "lock_stable g g"
  by (simp add: lock_stable_def)

lemma lock_stable_trans: "lock_stable g g' \<Longrightarrow> lock_stable g' g'' \<Longrightarrow> lock_stable g g''"
  by (simp add: lock_stable_def)

lemma combat_turn_lock_stable: "combat_turn g rnd = Inr (g', out) \<Longrightarrow> lock_stable g g'"
  by (auto simp add: combat_turn_def lock_stable_def Let_def
      split: option.splits sum.splits if_splits)

lemma move_lock_stable: "move g d = Inr (g', out) \<Longrightarrow> lock_stable g g'"
  by (auto simp add: move_def start_combat_def lock_stable_def Let_def
      split: option.splits if_splits)

lemma take_key_lock_stable: "take_key g = Inr (g', out) \<Longrightarrow> lock_stable g g'"
  by (auto simp add: take_key_def Room_remove_item_def Player_add_item_def lock_stable_def Let_def
      split: option.splits if_splits)

lemma read_note_lock_stable: "read_note g = Inr (g', out) \<Longrightarrow> lock_stable g g'"
  by (auto simp add: read_note_def split: option.splits)

lemma unlock_door_lock_stable: "unlock_door g p = Inr (g', out) \<Longrightarrow> lock_stable g g'"
  by (auto simp add: unlock_door_def lock_stable_def split: option.splits if_splits)

lemma open_door_lock_stable: "open_door g = Inr (g', out) \<Longrightarrow> lock_stable g g'"
  by (auto simp add: open_door_def split: option.splits if_splits)

lemma process_command_lock_stable:
  "process_command g command rnd = Inr (g', out) \<Longrightarrow> lock_stable g g'"
proof (induction rule: process_command_cases)
  case Quit
  then show ?case by (simp add: lock_stable_def)
qed (simp_all add: combat_turn_lock_stable move_lock_stable take_key_lock_stable
    read_note_lock_stable unlock_door_lock_stable open_door_lock_stable)

lemma run_loop_lock_stable: "run_loop g inputs = Inr (g', out) \<Longrightarrow> lock_stable g g'"
proof (induction inputs arbitrary: g out)
  case Nil
  then show ?case by (auto split: if_splits)
next
  case (Cons x xs)
  obtain line rnd where x: "x = (line, rnd)" by (cases x)
  show ?case
  proof (cases "game_over g")
    case True
    with Cons.prems show ?thesis by (simp add: x)
  next
    case False
    with Cons.prems obtain g1 out1 out2 where
      "process_command g (strip line) rnd = Inr (g1, out1)" "run_loop g1 xs = Inr (g', out2)"
      by (auto simp add: x split: sum.splits)
    then show ?thesis
      using process_command_lock_stable Cons.IH lock_stable_trans by blast
  qed
qed

text \<open>
  Claim C1. In every game state \<open>unlock_door(p)\<close> tests in this order: when
  \<open>door_unlocked\<close> is set it reports that the door is already unlocked and changes
  nothing; otherwise, when the inventory holds no item named key, it reports that the
  player has no key and changes nothing; otherwise, when \<open>p\<close> is the stored password
  (which is SHADOW in a new game and never changes), it sets \<open>door_unlocked\<close> and clears
  \<open>north_door_locked\<close> of the room registered as \<open>room1\<close>, the start room, and both stay so
  whatever commands follow; and for any other \<open>p\<close> it reports that the password is
  incorrect and changes nothing, so that \<open>door_unlocked\<close> remains false.
\<close>

theorem unlock_door_spec:
  "(door_unlocked g \<longrightarrow>
      unlock_door g p = Inr (g, [''\<newline>The door is already unlocked.''])) \<and>
   (\<not> door_unlocked g \<and> \<not> has_item (player g) ''key'' \<longrightarrow>
      unlock_door g p = Inr (g, [''\<newline>You don't have a key.''])) \<and>
   (\<not> door_unlocked g \<and> has_item (player g) ''key'' \<and> p = password g \<and>
    rooms g ''room1'' = Some r \<longrightarrow>
      unlock_door g p =
        Inr (g\<lparr>door_unlocked := True,
               store := (store g)(r := (store g r)\<lparr>north_door_locked := False\<rparr>)\<rparr>,
             [''\<newline>The door unlocks with a click! You can now go north.''])) \<and>
   (\<not> door_unlocked g \<and> has_item (player g) ''key'' \<and> p \<noteq> password g \<longrightarrow>
      unlock_door g p = Inr (g, [''\<newline>The password is incorrect.''])) \<and>
   (door_unlocked g \<and> rooms g ''room1'' = Some r \<and> \<not> north_door_locked (store g r) \<and>
    run_loop g inputs = Inr (g', out) \<longrightarrow>
      door_unlocked g' \<and> rooms g' ''room1'' = Some r \<and> \<not> north_door_locked (store g' r) \<and>
      password g' = password g) \<and>
   password Game_init = ''SHADOW''"
proof -
  have "lock_stable g g'" if "run_loop g inputs = Inr (g', out)"
    using that by (rule run_loop_lock_stable)
  then show ?thesis
    by (auto simp add: unlock_door_def lock_stable_def Game_init_simps)
qed

lemma keyed_game_simps:
  "\<not> door_unlocked keyed_game" "has_item (player keyed_game) ''key''"
  "password keyed_game = ''SHADOW''" "rooms keyed_game ''room1'' = Some Room1"
  by (simp_all add: keyed_game_def world_defs has_item_def)

lemma unlocked_game_simps:
  "door_unlocked unlocked_game" "rooms unlocked_game ''room1'' = Some Room1"
  "\<not> north_door_locked (store unlocked_game Room1)" "\<not> game_over unlocked_game"
  "\<not> in_combat unlocked_game" "current_room unlocked_game = Some Room1"
  "north (store unlocked_game Room1) = Some Room2"
  "room.name (store unlocked_game Room2) = ''Treasury Room''"
  by (simp_all add: unlocked_game_def keyed_game_def world_defs)

lemma Game_init_no_key: "\<not> has_item (player Game_init) ''key''"
  by (simp add: has_item_def world_defs)

lemma unlocked_go_north:
  "run_loop unlocked_game [(''go north'', 0, 0)] =
     Inr (unlocked_game\<lparr>current_room := Some Room2\<rparr>,
          [get_full_description (store unlocked_game Room2),
           ''\<newline>\<newline>Game ended. Thanks for playing!''])"
proof -
  have "strip ''go north'' = ''go north''" "lower ''north'' = ''north''"
    by (simp_all add: text_defs)
  then show ?thesis
    by (simp add: unlocked_game_simps go_north_dispatch norm_simps move_def)
qed

theorem unlock_door_spec_witness:
  "unlock_door unlocked_game ''SHADOW'' =
     Inr (unlocked_game, [''\<newline>The door is already unlocked.'']) \<and>
   unlock_door Game_init ''SHADOW'' = Inr (Game_init, [''\<newline>You don't have a key.'']) \<and>
   unlock_door keyed_game ''SHADOW'' =
     Inr (unlocked_game, [''\<newline>The door unlocks with a click! You can now go north.'']) \<and>
   unlock_door keyed_game ''OPEN SESAME'' =
     Inr (keyed_game, [''\<newline>The password is incorrect.'']) \<and>
   run_loop unlocked_game [(''go north'', 0, 0)] =
     Inr (unlocked_game\<lparr>current_room := Some Room2\<rparr>,
          [get_full_description (store unlocked_game Room2),
           ''\<newline>\<newline>Game ended. Thanks for playing!'']) \<and>
   door_unlocked (unlocked_game\<lparr>current_room := Some Room2\<rparr>) \<and>
   \<not> north_door_locked (store (unlocked_game\<lparr>current_room := Some Room2\<rparr>) Room1)"
proof -
  have eq: "keyed_game
       \<lparr>door_unlocked := True,
        store := (store keyed_game)
                   (Room1 := (store keyed_game Room1)\<lparr>north_door_locked := False\<rparr>)\<rparr>
     = unlocked_game"
    by (simp add: unlocked_game_def)
  show ?thesis
    using unlock_door_spec [of unlocked_game "''SHADOW''" Room1 "[(''go north'', 0, 0)]"
        "unlocked_game\<lparr>current_room := Some Room2\<rparr>"
        "[get_full_description (store unlocked_game Room2),
           ''\<newline>\<newline>Game ended. Thanks for playing!'']"]
      unlock_door_spec [of Game_init "''SHADOW''" Room1 "[]" Game_init "[]"]
      unlock_door_spec [of keyed_game "''SHADOW''" Room1 "[]" keyed_game "[]"]
      unlock_door_spec [of keyed_game "''OPEN SESAME''" Room1 "[]" keyed_game "[]"]
    by (simp add: unlocked_go_north eq keyed_game_simps unlocked_game_simps Game_init_simps Game_init_no_key
        del: run_loop.simps)
qed

section \<open>The flags along a run\<close>

text \<open>
  A property that holds of a new game and that every command processed while the game
  is not over preserves holds of every state a run reaches.
\<close>

lemma run_loop_invariant:
  assumes step: "\<And>g command rnd g' out.
      I g \<Longrightarrow> \<not> game_over g \<Longrightarrow> process_command g command rnd = Inr (g', out) \<Longrightarrow> I g'"
    and "I g" and "run_loop g inputs = Inr (g', out)"
  shows "I g'"
  using assms(2,3)
proof (induction inputs arbitrary: g out)
  case Nil
  then show ?case by (auto split: if_splits)
next
  case (Cons x xs)
  obtain line rnd where x: "x = (line, rnd)" by (cases x)
  show ?case
  proof (cases "game_over g")
    case True
    with Cons.prems show ?thesis by (simp add: x)
  next
    case False
    with Cons.prems obtain g1 out1 out2 where
      s: "process_command g (strip line) rnd = Inr (g1, out1)" and r: "run_loop g1 xs = Inr (g', out2)"
      by (auto simp add: x split: sum.splits)
    from step [OF Cons.prems(1) False s] have "I g1" .
    then show ?thesis using r by (rule Cons.IH)
  qed
qed

lemma main_invariant:
  assumes step: "\<And>g command rnd g' out.
      I g \<Longrightarrow> \<not> game_over g \<Longrightarrow> process_command g command rnd = Inr (g', out) \<Longrightarrow> I g'"
    and init: "I Game_init" and fin: "final_state (main inputs) = Some g"
  shows "I g"
proof -
  from fin obtain out where "run_loop Game_init inputs = Inr (g, out)"
    by (auto simp add: main_def run_def final_state_def split: sum.splits)
  with step init show ?thesis by (rule run_loop_invariant)
qed

lemma flags_inv_init: "flags_inv Game_init"
  by (simp add: flags_inv_def world_defs)

lemma combat_turn_flags:
  "flags_inv g \<Longrightarrow> combat_turn g rnd = Inr (g', out) \<Longrightarrow> flags_inv g'"
  by (auto simp add: combat_turn_def flags_inv_def is_alive_def Let_def
      split: option.splits sum.splits if_splits)

lemma move_flags:
  "flags_inv g \<Longrightarrow> \<not> game_over g \<Longrightarrow> move g d = Inr (g', out) \<Longrightarrow> flags_inv g'"
  by (auto simp add: move_def start_combat_def flags_inv_def Enemy_init_def Let_def
      split: option.splits if_splits)

lemma take_key_flags: "flags_inv g \<Longrightarrow> take_key g = Inr (g', out) \<Longrightarrow> flags_inv g'"
  by (auto simp add: take_key_def flags_inv_def Let_def split: option.splits)

lemma read_note_flags: "flags_inv g \<Longrightarrow> read_note g = Inr (g', out) \<Longrightarrow> flags_inv g'"
  by (auto simp add: read_note_def split: option.splits)

lemma unlock_door_flags: "flags_inv g \<Longrightarrow> unlock_door g p = Inr (g', out) \<Longrightarrow> flags_inv g'"
  by (auto simp add: unlock_door_def flags_inv_def split: option.splits if_splits)

lemma open_door_flags: "flags_inv g \<Longrightarrow> open_door g = Inr (g', out) \<Longrightarrow> flags_inv g'"
  by (auto simp add: open_door_def split: option.splits if_splits)

lemma process_command_flags:
  assumes "flags_inv g" and "\<not> game_over g"
    and "process_command g command rnd = Inr (g', out)"
  shows "flags_inv g'"
  using assms(3)
proof (cases rule: process_command_cases)
  case Blank
  with assms(1) show ?thesis by simp
next
  case Attack
  with assms(1) show ?thesis by (blast intro: combat_turn_flags)
next
  case Reminder
  with assms(1) show ?thesis by simp
next
  case Help
  with assms(1) show ?thesis by simp
next
  case Quit
  with assms(1) show ?thesis by (simp add: flags_inv_def)
next
  case (Go d)
  with assms(1,2) show ?thesis by (blast intro: move_flags)
next
  case (Look c)
  with assms(1) show ?thesis by simp
next
  case Inventory
  with assms(1) show ?thesis by simp
next
  case Take
  with assms(1) show ?thesis by (blast intro: take_key_flags)
next
  case Read
  with assms(1) show ?thesis by (blast intro: read_note_flags)
next
  case (Unlock p)
  with assms(1) show ?thesis by (blast intro: unlock_door_flags)
next
  case Open
  with assms(1) show ?thesis by (blast intro: open_door_flags)
next
  case Unknown
  with assms(1) show ?thesis by simp
qed

lemma main_flags: "final_state (main inputs) = Some g \<Longrightarrow> flags_inv g"
  using process_command_flags flags_inv_init by (rule main_invariant)

text \<open>
  Claim C6. In every state that a run of the game reaches from a new game, \<open>in_combat\<close>
  is set if and only if there is an enemy, its health is positive, and neither
  \<open>game_won\<close> nor \<open>game_over\<close> is set. (The loop of \<open>run\<close> reads a command only while
  \<open>game_over\<close> is false, so a flag that is set was set in the encounter.)
\<close>

theorem in_combat_iff:
  assumes "final_state (main inputs) = Some g"
  shows "in_combat g \<longleftrightarrow>
     (\<exists>e. enemy g = Some e \<and> 0 < enemy.health e) \<and> \<not> game_won g \<and> \<not> game_over g"
  using main_flags [OF assms] by (auto simp add: flags_inv_def)

theorem in_combat_iff_witness:
  "final_state (main to_arena) = Some arena_game \<and>
   in_combat arena_game =
     ((\<exists>e. enemy arena_game = Some e \<and> 0 < enemy.health e) \<and>
      \<not> game_won arena_game \<and> \<not> game_over arena_game) \<and>
   final_state (main to_victory) = Some victory_game \<and>
   in_combat victory_game =
     ((\<exists>e. enemy victory_game = Some e \<and> 0 < enemy.health e) \<and>
      \<not> game_won victory_game \<and> \<not> game_over victory_game)"
  using in_combat_iff [OF arena_reached] in_combat_iff [OF victory_reached]
  by (simp add: arena_reached victory_reached)

section \<open>More sessions\<close>

lemmas combat_defs = combat_turn_def Player_attack_def Enemy_attack_def randint_def
  Player_take_damage_def Enemy_take_damage_def is_alive_def

lemma run_loop_arena: "final_state (run_loop Game_init to_arena) = Some arena_game"
  using arena_reached by (simp add: main_def final_state_run split: if_splits)

lemma final_state_main_append:
  "final_state (main xs) = Some g \<Longrightarrow> final_state (main (xs @ ys)) = final_state (run_loop g ys)"
  by (auto simp add: main_def final_state_run final_state_run_loop_append split: if_splits)

lemma wounded_reached: "final_state (main (to_arena @ [(''attack'', 5, 0)])) = Some wounded_game"
  by (simp add: final_state_main_append [OF arena_reached] final_state_run_loop_Cons
      process_command_def text_defs combat_defs world_defs arena_game_def wounded_game_def Let_def)

lemma dying_reached: "final_state (main to_dying) = Some dying_game"
  unfolding to_dying_def
  by (simp add: final_state_main_append [OF arena_reached] final_state_run_loop_Cons
      process_command_def text_defs combat_defs world_defs arena_game_def dying_game_def Let_def)

lemma wounded_attack:
  "final_state (process_command wounded_game ''attack'' (5, 0)) = Some victory_game"
  by (simp add: process_command_def text_defs combat_defs world_defs arena_game_def
      wounded_game_def victory_game_def Let_def)

lemma outcome_collapse: "final_state res = Some g \<Longrightarrow> res = Inr (g, printed res)"
  by (auto simp add: final_state_def printed_def split: sum.splits)

section \<open>Winning\<close>

lemma move_game_won: "move g d = Inr (g', out) \<Longrightarrow> game_won g' = game_won g"
  by (auto simp add: move_def start_combat_def Let_def split: option.splits if_splits)

lemma take_key_game_won: "take_key g = Inr (g', out) \<Longrightarrow> game_won g' = game_won g"
  by (auto simp add: take_key_def Let_def split: option.splits)

lemma read_note_game_won: "read_note g = Inr (g', out) \<Longrightarrow> game_won g' = game_won g"
  by (auto simp add: read_note_def split: option.splits)

lemma unlock_door_game_won: "unlock_door g p = Inr (g', out) \<Longrightarrow> game_won g' = game_won g"
  by (auto simp add: unlock_door_def split: option.splits if_splits)

lemma open_door_game_won: "open_door g = Inr (g', out) \<Longrightarrow> game_won g' = game_won g"
  by (auto simp add: open_door_def split: option.splits if_splits)

lemma combat_turn_win:
  "combat_turn g rnd = Inr (g', out) \<Longrightarrow> \<not> game_won g \<Longrightarrow> game_won g' \<Longrightarrow>
   game_over g' \<and> enemy_defeated g' \<and> \<not> in_combat g' \<and>
   (\<exists>e. enemy g' = Some e \<and> enemy.health e = 0)"
  by (auto simp add: combat_turn_def is_alive_def Enemy_take_damage_def Let_def
      split: option.splits sum.splits if_splits)

lemma process_command_win:
  assumes "process_command g command rnd = Inr (g', out)" and "\<not> game_won g" and "game_won g'"
  shows "in_combat g \<and> strip (lower command) = ''attack'' \<and>
    game_over g' \<and> enemy_defeated g' \<and> \<not> in_combat g' \<and>
    (\<exists>e. enemy g' = Some e \<and> enemy.health e = 0)"
proof -
  have c: "in_combat g \<and> combat_turn g rnd = Inr (g', out)"
    using assms(1)
  proof (cases rule: process_command_cases)
    case Attack
    then show ?thesis by simp
  next
    case (Go d)
    with assms(2,3) show ?thesis by (simp add: move_game_won)
  next
    case Take
    with assms(2,3) show ?thesis by (simp add: take_key_game_won)
  next
    case Read
    with assms(2,3) show ?thesis by (simp add: read_note_game_won)
  next
    case (Unlock p)
    with assms(2,3) show ?thesis by (simp add: unlock_door_game_won)
  next
    case Open
    with assms(2,3) show ?thesis by (simp add: open_door_game_won)
  qed (use assms(2,3) in simp_all)
  then have "strip (lower command) = ''attack''"
    using assms by (auto simp add: combat_dispatch split: if_splits)
  with c combat_turn_win [of g rnd g' out] assms(2,3) show ?thesis by simp
qed

text \<open>
  Claim C10. In every state that a run of the game reaches from a new game, \<open>game_won\<close>
  implies \<open>game_over\<close> and \<open>enemy_defeated\<close>. Winning is declared only at the moment
  the enemy is defeated and together with the end of the game: a command that sets
  \<open>game_won\<close> is an attack in combat, and it leaves the enemy at health 0, combat ended,
  \<open>enemy_defeated\<close> and \<open>game_over\<close> set.
\<close>

theorem win_ends_game:
  "(final_state (main inputs) = Some g \<and> game_won g \<longrightarrow> game_over g \<and> enemy_defeated g) \<and>
   (process_command s command rnd = Inr (s', out) \<and> \<not> game_won s \<and> game_won s' \<longrightarrow>
      in_combat s \<and> strip (lower command) = ''attack'' \<and>
      game_over s' \<and> enemy_defeated s' \<and> \<not> in_combat s' \<and>
      (\<exists>e. enemy s' = Some e \<and> enemy.health e = 0))"
  using main_flags [of inputs g] process_command_win [of s command rnd s' out]
  by (simp add: flags_inv_def)

lemma wounded_victory_simps:
  "\<not> game_won wounded_game" "game_won victory_game" "enemy_defeated victory_game"
  by (simp_all add: wounded_game_def victory_game_def arena_game_def world_defs)

theorem win_ends_game_witness:
  "final_state (main to_victory) = Some victory_game \<and>
   game_won victory_game \<and> game_over victory_game \<and> enemy_defeated victory_game \<and>
   final_state (process_command wounded_game ''attack'' (5, 0)) = Some victory_game \<and>
   \<not> game_won wounded_game \<and> in_combat wounded_game \<and> \<not> in_combat victory_game \<and>
   (\<exists>e. enemy victory_game = Some e \<and> enemy.health e = 0)"
  using win_ends_game [of to_victory victory_game wounded_game "''attack''" "(5, 0)"
      victory_game "printed (process_command wounded_game ''attack'' (5, 0))"]
    outcome_collapse [OF wounded_attack]
  by (simp add: victory_reached wounded_attack wounded_victory_simps)

section \<open>A round of combat\<close>

lemma randint_bounds: "randint a b r = Inr v \<Longrightarrow> a \<le> v \<and> v \<le> b"
  using randint_range [of a b r] by (auto simp add: randint_def split: if_splits)

lemma stats_inv_init: "stats_inv Game_init"
  by (simp add: stats_inv_def world_defs)

lemma combat_turn_stats:
  assumes "stats_inv g" and "combat_turn g rnd = Inr (g', out)"
  shows "stats_inv g'"
proof (cases "enemy g")
  case None
  with assms show ?thesis by (simp add: combat_turn_def)
next
  case (Some e)
  show ?thesis
  proof (cases "in_combat g")
    case False
    with assms Some show ?thesis by (simp add: combat_turn_def)
  next
    case True
    from assms(1) have p: "player.min_damage (player g) = 1" "player.max_damage (player g) = 6"
      by (simp_all add: stats_inv_def)
    then obtain pd where pd: "Player_attack (player g) (fst rnd) = Inr pd" "1 \<le> pd" "pd \<le> 6"
      using randint_range [of 1 6 "fst rnd"] by (auto simp add: Player_attack_def)
    define e' where "e' = Enemy_take_damage e pd"
    from assms(1) Some have e: "enemy.min_damage e' = 1" "enemy.max_damage e' = 4"
      "enemy.name e' = ''Dark Warrior''" "enemy.max_health e' = 10"
      "0 \<le> enemy.health e'" "enemy.health e' \<le> 10"
      using pd(2) by (auto simp add: stats_inv_def e'_def Enemy_take_damage_def Let_def)
    then obtain ed where ed: "Enemy_attack e' (snd rnd) = Inr ed" "1 \<le> ed" "ed \<le> 4"
      using randint_range [of 1 4 "snd rnd"] by (auto simp add: Enemy_attack_def)
    define p' where "p' = Player_take_damage (player g) ed"
    from assms(1) ed(2) have p': "player.min_damage p' = 1" "player.max_damage p' = 6"
      "player.max_health p' = 20" "0 \<le> player.health p'" "player.health p' \<le> 20"
      by (auto simp add: stats_inv_def p'_def Player_take_damage_def Let_def)
    from assms(2) Some True pd(1) ed(1)
    have "g' = g\<lparr>enemy := Some e', in_combat := False, enemy_defeated := True, game_won := True,
                   game_over := True\<rparr>
        \<or> g' = g\<lparr>enemy := Some e', player := p', in_combat := False, game_over := True\<rparr>
        \<or> g' = g\<lparr>enemy := Some e', player := p'\<rparr>"
      by (auto simp add: combat_turn_def Let_def e'_def [symmetric] p'_def [symmetric]
          split: if_splits)
    with assms(1) e p' show ?thesis
      by (auto simp add: stats_inv_def)
  qed
qed

lemma move_stats: "stats_inv g \<Longrightarrow> move g d = Inr (g', out) \<Longrightarrow> stats_inv g'"
  by (auto simp add: move_def start_combat_def stats_inv_def Enemy_init_def Let_def
      split: option.splits if_splits)

lemma take_key_stats: "stats_inv g \<Longrightarrow> take_key g = Inr (g', out) \<Longrightarrow> stats_inv g'"
  by (auto simp add: take_key_def stats_inv_def Player_add_item_def Let_def split: option.splits)

lemma read_note_stats: "stats_inv g \<Longrightarrow> read_note g = Inr (g', out) \<Longrightarrow> stats_inv g'"
  by (auto simp add: read_note_def split: option.splits)

lemma unlock_door_stats: "stats_inv g \<Longrightarrow> unlock_door g p = Inr (g', out) \<Longrightarrow> stats_inv g'"
  by (auto simp add: unlock_door_def stats_inv_def split: option.splits if_splits)

lemma open_door_stats: "stats_inv g \<Longrightarrow> open_door g = Inr (g', out) \<Longrightarrow> stats_inv g'"
  by (auto simp add: open_door_def split: option.splits if_splits)

lemma process_command_stats:
  assumes "stats_inv g" and "\<not> game_over g"
    and "process_command g command rnd = Inr (g', out)"
  shows "stats_inv g'"
  using assms(3)
proof (cases rule: process_command_cases)
  case Attack
  with assms(1) show ?thesis by (blast intro: combat_turn_stats)
next
  case Quit
  with assms(1) show ?thesis by (simp add: stats_inv_def)
next
  case (Go d)
  with assms(1) show ?thesis by (blast intro: move_stats)
next
  case Take
  with assms(1) show ?thesis by (blast intro: take_key_stats)
next
  case Read
  with assms(1) show ?thesis by (blast intro: read_note_stats)
next
  case (Unlock p)
  with assms(1) show ?thesis by (blast intro: unlock_door_stats)
next
  case Open
  with assms(1) show ?thesis by (blast intro: open_door_stats)
qed (use assms(1) in simp_all)

lemma main_stats: "final_state (main inputs) = Some g \<Longrightarrow> stats_inv g"
  using process_command_stats stats_inv_init by (rule main_invariant)

text \<open>
  Claim C2. In every state that a run reaches with \<open>in_combat\<close> set, the command
  \<open>attack\<close> plays one round. There is an enemy, and the player's roll, between 1 and 6,
  is applied to it first. If the enemy's health is then 0, the round ends at once with
  \<open>in_combat\<close> false and \<open>enemy_defeated\<close>, \<open>game_won\<close> and \<open>game_over\<close> true, and the
  player is untouched: no counter-attack is applied. Otherwise the enemy's roll, between
  1 and 4, is applied to the player; if the player's health is then 0 the round ends
  with \<open>in_combat\<close> false and \<open>game_over\<close> true, \<open>game_won\<close> staying false; and if both
  survive nothing else changes, so \<open>in_combat\<close> remains true.
\<close>

theorem combat_round:
  assumes "final_state (main inputs) = Some g" and "in_combat g"
    and "strip (lower command) = ''attack''"
  shows "\<exists>e pd.
     enemy g = Some e \<and> Player_attack (player g) r1 = Inr pd \<and> 1 \<le> pd \<and> pd \<le> 6 \<and>
     (let e' = Enemy_take_damage e pd in
        (enemy.health e' = 0 \<longrightarrow>
           final_state (process_command g command (r1, r2)) =
             Some (g\<lparr>enemy := Some e', in_combat := False, enemy_defeated := True,
                     game_won := True, game_over := True\<rparr>)) \<and>
        (enemy.health e' \<noteq> 0 \<longrightarrow>
           (\<exists>ed. Enemy_attack e' r2 = Inr ed \<and> 1 \<le> ed \<and> ed \<le> 4 \<and>
              (let p' = Player_take_damage (player g) ed in
                 (player.health p' = 0 \<longrightarrow>
                    \<not> game_won g \<and>
                    final_state (process_command g command (r1, r2)) =
                      Some (g\<lparr>enemy := Some e', player := p', in_combat := False,
                              game_over := True\<rparr>)) \<and>
                 (player.health p' \<noteq> 0 \<longrightarrow>
                    final_state (process_command g command (r1, r2)) =
                      Some (g\<lparr>enemy := Some e', player := p'\<rparr>))))))"
proof -
  from main_flags [OF assms(1)] assms(2) obtain e where
    e: "enemy g = Some e" and nw: "\<not> game_won g"
    by (auto simp add: flags_inv_def)
  from main_stats [OF assms(1)] e have
    p: "player.min_damage (player g) = 1" "player.max_damage (player g) = 6"
      "0 \<le> player.health (player g)"
    and en: "enemy.min_damage e = 1" "enemy.max_damage e = 4" "0 \<le> enemy.health e"
    by (simp_all add: stats_inv_def)
  from p obtain pd where pd: "Player_attack (player g) r1 = Inr pd" "1 \<le> pd" "pd \<le> 6"
    using randint_range [of 1 6 r1] by (auto simp add: Player_attack_def)
  define e' where "e' = Enemy_take_damage e pd"
  have e': "enemy.min_damage e' = 1" "enemy.max_damage e' = 4" "0 \<le> enemy.health e'"
    using en by (auto simp add: e'_def Enemy_take_damage_def Let_def)
  then obtain ed where ed: "Enemy_attack e' r2 = Inr ed" "1 \<le> ed" "ed \<le> 4"
    using randint_range [of 1 4 r2] by (auto simp add: Enemy_attack_def)
  define p' where "p' = Player_take_damage (player g) ed"
  have p': "0 \<le> player.health p'"
    by (auto simp add: p'_def Player_take_damage_def Let_def)
  have pc: "process_command g command (r1, r2) = combat_turn g (r1, r2)"
    using assms(2,3) by (simp add: combat_dispatch)
  have victory: "final_state (combat_turn g (r1, r2)) =
      Some (g\<lparr>enemy := Some e', in_combat := False, enemy_defeated := True,
              game_won := True, game_over := True\<rparr>)"
    if "enemy.health e' = 0"
    using that e assms(2) pd(1)
    by (simp add: combat_turn_def Let_def e'_def [symmetric] is_alive_def)
  have defeat: "final_state (combat_turn g (r1, r2)) =
      Some (g\<lparr>enemy := Some e', player := p', in_combat := False, game_over := True\<rparr>)"
    if "enemy.health e' \<noteq> 0" "player.health p' = 0"
    using that e assms(2) pd(1) ed(1) e'(3)
    by (simp add: combat_turn_def Let_def e'_def [symmetric] p'_def [symmetric] is_alive_def)
  have survive: "final_state (combat_turn g (r1, r2)) = Some (g\<lparr>enemy := Some e', player := p'\<rparr>)"
    if "enemy.health e' \<noteq> 0" "player.health p' \<noteq> 0"
    using that e assms(2) pd(1) ed(1) e'(3) p'
    by (simp add: combat_turn_def Let_def e'_def [symmetric] p'_def [symmetric] is_alive_def)
  note facts = victory defeat survive ed
  note facts = facts [unfolded e'_def p'_def]
  show ?thesis
    unfolding pc Let_def
    by (rule exI [of _ e], rule exI [of _ pd], intro conjI impI exI [of _ ed])
      (use e pd nw facts in simp_all)
qed

lemma combat_states_simps:
  "in_combat arena_game" "in_combat wounded_game" "in_combat dying_game"
  "enemy arena_game = Some (Enemy_init ''Dark Warrior'' 10 1 4)"
  "enemy wounded_game = Some ((Enemy_init ''Dark Warrior'' 10 1 4)\<lparr>enemy.health := 4\<rparr>)"
  "enemy dying_game = Some ((Enemy_init ''Dark Warrior'' 10 1 4)\<lparr>enemy.health := 6\<rparr>)"
  "player.health (player arena_game) = 20" "player.health (player dying_game) = 4"
  "\<not> game_won dying_game"
  by (simp_all add: arena_game_def wounded_game_def dying_game_def world_defs)

theorem combat_round_witness:
  "final_state (main (to_arena @ [(''attack'', 5, 0)])) = Some wounded_game \<and>
   in_combat wounded_game \<and>
   final_state (process_command wounded_game ''attack'' (5, 0)) =
     Some (wounded_game
       \<lparr>enemy := Some ((Enemy_init ''Dark Warrior'' 10 1 4)\<lparr>enemy.health := 0\<rparr>),
        in_combat := False, enemy_defeated := True, game_won := True, game_over := True\<rparr>) \<and>
   final_state (main to_dying) = Some dying_game \<and> in_combat dying_game \<and>
   final_state (process_command dying_game ''attack'' (0, 3)) =
     Some (dying_game
       \<lparr>enemy := Some ((Enemy_init ''Dark Warrior'' 10 1 4)\<lparr>enemy.health := 5\<rparr>),
        player := (player dying_game)\<lparr>player.health := 0\<rparr>,
        in_combat := False, game_over := True\<rparr>) \<and>
   final_state (main to_arena) = Some arena_game \<and> in_combat arena_game \<and>
   final_state (process_command arena_game ''attack'' (5, 0)) =
     Some (arena_game
       \<lparr>enemy := Some ((Enemy_init ''Dark Warrior'' 10 1 4)\<lparr>enemy.health := 4\<rparr>),
        player := (player arena_game)\<lparr>player.health := 19\<rparr>\<rparr>)"
  using combat_round [OF wounded_reached, of "''attack''" 5 0]
    combat_round [OF dying_reached, of "''attack''" 0 3]
    combat_round [OF arena_reached, of "''attack''" 5 0]
  by (simp add: wounded_reached dying_reached arena_reached combat_states_simps norm_simps
      Player_attack_def Enemy_attack_def randint_def Player_take_damage_def
      Enemy_take_damage_def Enemy_init_def Let_def
      arena_game_def wounded_game_def dying_game_def world_defs)

section \<open>The world along a run\<close>

lemma room_facts:
  "items room1 = [key]" "items room2 = [note_item]" "items room3 = []"
  "room.name room1 = ''Starting Chamber''" "room.name room2 = ''Treasury Room''"
  "room.name room3 = ''Enemy Arena''"
  "north room1 = Some Room2" "north room2 = Some Room3" "north room3 = None"
  "south room1 = None" "south room2 = Some Room1" "south room3 = Some Room2"
  by (simp_all add: room1_def room2_def room3_def Room_add_item_def Room_init_def)

lemma item_facts:
  "lower (item.name key) = lower ''key''" "lower (item.name note_item) \<noteq> lower ''key''"
  "key \<noteq> note_item"
  by (simp_all add: key_def note_item_def text_defs)

lemma rooms_init:
  "rooms Game_init ''room1'' = Some Room1"
  by (simp add: world_defs)

lemma world_inv_init: "world_inv Game_init"
  by (simp add: world_inv_def world_defs)

lemma world_inv_cases:
  assumes "world_inv g"
  obtains
    (Lying) "store g Room1 = room1\<lparr>north_door_locked := \<not> door_unlocked g\<rparr>"
      "inventory (player g) = []"
  | (Taken) "store g Room1 = room1\<lparr>items := [], north_door_locked := \<not> door_unlocked g\<rparr>"
      "inventory (player g) = [key]"
  using assms unfolding world_inv_def by blast

lemma world_inv_rest:
  assumes "world_inv g"
  shows "rooms g = rooms Game_init" "store g Room2 = room2" "store g Room3 = room3"
    "\<exists>c. current_room g = Some c" "in_combat g \<Longrightarrow> current_room g = Some Room3"
  using assms unfolding world_inv_def by auto

lemma get_key_only_room1:
  assumes "world_inv g" and "Room_get_item (store g c) ''key'' = Some k"
  shows "c = Room1 \<and> k = key \<and> store g Room1 = room1\<lparr>north_door_locked := \<not> door_unlocked g\<rparr>
     \<and> inventory (player g) = []"
proof (cases c)
  case Room1
  from assms(1) show ?thesis
  proof (cases rule: world_inv_cases)
    case Lying
    with assms(2) Room1 show ?thesis
      by (simp add: Room_get_item_def room_facts item_facts)
  next
    case Taken
    with assms(2) Room1 show ?thesis
      by (simp add: Room_get_item_def)
  qed
next
  case Room2
  with assms show ?thesis
    by (simp add: world_inv_rest Room_get_item_def room_facts item_facts)
next
  case Room3
  with assms show ?thesis
    by (simp add: world_inv_rest Room_get_item_def room_facts)
qed

lemma take_key_world:
  assumes "world_inv g" and "\<not> in_combat g" and "take_key g = Inr (g', out)"
  shows "world_inv g'"
proof -
  from world_inv_rest(4) [OF assms(1)] obtain c where c: "current_room g = Some c" ..
  show ?thesis
  proof (cases "Room_get_item (store g c) ''key''")
    case None
    with assms c show ?thesis by (simp add: take_key_def)
  next
    case (Some k)
    from get_key_only_room1 [OF assms(1) Some] have
      k: "c = Room1" "k = key"
        "store g Room1 = room1\<lparr>north_door_locked := \<not> door_unlocked g\<rparr>"
        "inventory (player g) = []"
      by simp_all
    have "fst (Room_remove_item (store g Room1) ''key'')
        = room1\<lparr>items := [], north_door_locked := \<not> door_unlocked g\<rparr>"
      by (simp add: k Room_remove_item_def room_facts item_facts)
    with assms(3) c Some k have
      "g' = g\<lparr>store := (store g)(Room1 := room1\<lparr>items := [],
                                           north_door_locked := \<not> door_unlocked g\<rparr>),
              player := Player_add_item (player g) key\<rparr>"
      by (simp add: take_key_def)
    with assms(1,2) k show ?thesis
      by (simp add: world_inv_def Player_add_item_def)
  qed
qed

lemma combat_turn_world:
  "world_inv g \<Longrightarrow> combat_turn g rnd = Inr (g', out) \<Longrightarrow> world_inv g'"
  by (auto simp add: combat_turn_def world_inv_def Player_take_damage_def Let_def
      split: option.splits sum.splits if_splits)

text \<open>The state that \<open>move\<close> returns, without its output.\<close>

lemma final_state_move:
  "final_state (move g d) =
     (if lower d = ''north'' then
        (case current_room g of
           None \<Rightarrow> None
         | Some c \<Rightarrow>
             (case north (store g c) of
                Some n \<Rightarrow>
                  if north_door_locked (store g c) then Some g
                  else if room.name (store g n) = ''Enemy Arena'' \<and> \<not> enemy_defeated g
                  then Some (g\<lparr>current_room := Some n,
                                enemy := Some (Enemy_init ''Dark Warrior'' 10 1 4),
                                in_combat := True\<rparr>)
                  else Some (g\<lparr>current_room := Some n\<rparr>)
              | None \<Rightarrow> Some g))
      else if lower d = ''south'' then
        (case current_room g of
           None \<Rightarrow> None
         | Some c \<Rightarrow>
             (case south (store g c) of
                Some n \<Rightarrow> Some (g\<lparr>current_room := Some n\<rparr>)
              | None \<Rightarrow> Some g))
      else Some g)"
  by (simp add: move_def start_combat_def Let_def split: option.splits)

lemma move_world:
  assumes "world_inv g" and "\<not> in_combat g" and "move g d = Inr (g', out)"
  shows "world_inv g'"
proof -
  have names: "room.name (store g Room1) \<noteq> ''Enemy Arena''"
    "room.name (store g Room2) \<noteq> ''Enemy Arena''"
    using assms(1) by (auto simp add: world_inv_def room_facts)
  have arena: "n = Room3" if "room.name (store g n) = ''Enemy Arena''" for n
    using that names by (cases n) simp_all
  from assms(3) have "final_state (move g d) = Some g'" by simp
  then have "g' = g \<or> (\<exists>n. g' = g\<lparr>current_room := Some n\<rparr>)
         \<or> g' = g\<lparr>current_room := Some Room3,
                   enemy := Some (Enemy_init ''Dark Warrior'' 10 1 4), in_combat := True\<rparr>"
    unfolding final_state_move
    by (auto split: if_splits option.splits dest: arena)
  with assms(1,2) show ?thesis
    by (auto simp add: world_inv_def)
qed

lemma read_note_world: "world_inv g \<Longrightarrow> read_note g = Inr (g', out) \<Longrightarrow> world_inv g'"
  by (auto simp add: read_note_def split: option.splits)

lemma unlock_door_world:
  assumes "world_inv g" and "unlock_door g p = Inr (g', out)"
  shows "world_inv g'"
proof -
  have r: "rooms g ''room1'' = Some Room1"
    using assms(1) by (simp add: world_inv_def rooms_init)
  have "g' = g \<or> (\<not> door_unlocked g \<and>
      g' = g\<lparr>door_unlocked := True,
            store := (store g)(Room1 := (store g Room1)\<lparr>north_door_locked := False\<rparr>)\<rparr>)"
    using assms(2) r by (auto simp add: unlock_door_def split: if_splits)
  with assms(1) show ?thesis
    by (auto simp add: world_inv_def)
qed

lemma open_door_world: "world_inv g \<Longrightarrow> open_door g = Inr (g', out) \<Longrightarrow> world_inv g'"
  by (auto simp add: open_door_def split: option.splits if_splits)

lemma process_command_world:
  assumes "world_inv g" and "\<not> game_over g"
    and "process_command g command rnd = Inr (g', out)"
  shows "world_inv g'"
  using assms(3)
proof (cases rule: process_command_cases)
  case Attack
  with assms(1) show ?thesis by (blast intro: combat_turn_world)
next
  case Quit
  with assms(1) show ?thesis by (simp add: world_inv_def)
next
  case (Go d)
  with assms(1) show ?thesis by (blast intro: move_world)
next
  case Take
  with assms(1) show ?thesis by (blast intro: take_key_world)
next
  case Read
  with assms(1) show ?thesis by (blast intro: read_note_world)
next
  case (Unlock p)
  with assms(1) show ?thesis by (blast intro: unlock_door_world)
next
  case Open
  with assms(1) show ?thesis by (blast intro: open_door_world)
qed (use assms(1) in simp_all)

lemma main_world: "final_state (main inputs) = Some g \<Longrightarrow> world_inv g"
  using process_command_world world_inv_init by (rule main_invariant)

section \<open>Taking the key\<close>

text \<open>
  Claim C8. In every state that a run reaches, \<open>take key\<close> (or \<open>pick up key\<close>, or
  \<open>get key\<close>) in a room that holds an item named key, whatever its case, removes that
  item from the items of the room and appends the same item to the inventory, and
  changes nothing else; the item was in the room, and afterwards it is in no room and
  once in the inventory, hence in exactly one container; and a second attempt in the
  same room reports that there is no key and changes nothing.
\<close>

theorem take_key_transfers:
  assumes "final_state (main inputs) = Some g" and "current_room g = Some c"
    and "Room_get_item (store g c) ''key'' = Some k"
    and "strip (lower command) \<in> set [''take key'', ''pick up key'', ''get key'']"
  shows "\<exists>g'.
     process_command g command rnd =
       Inr (g', [''\<newline>You pick up the rusty iron key and add it to your inventory.'']) \<and>
     g' = g\<lparr>store := (store g)(c := (store g c)\<lparr>items := remove1 k (items (store g c))\<rparr>),
             player := (player g)\<lparr>inventory := inventory (player g) @ [k]\<rparr>\<rparr> \<and>
     k \<in> set (items (store g c)) \<and>
     (\<forall>r. k \<notin> set (items (store g' r))) \<and>
     count_list (inventory (player g')) k = 1 \<and>
     process_command g' command rnd' = Inr (g', [''\<newline>There's no key here.''])"
proof -
  have w: "world_inv g" using assms(1) by (rule main_world)
  from get_key_only_room1 [OF w assms(3)] have
    k: "c = Room1" "k = key"
      "store g Room1 = room1\<lparr>north_door_locked := \<not> door_unlocked g\<rparr>"
      "inventory (player g) = []"
    by simp_all
  have nc: "\<not> in_combat g"
    using world_inv_rest(5) [OF w] assms(2) k(1) by auto
  define g' where
    "g' = g\<lparr>store := (store g)(c := (store g c)\<lparr>items := remove1 k (items (store g c))\<rparr>),
            player := (player g)\<lparr>inventory := inventory (player g) @ [k]\<rparr>\<rparr>"
  have rem: "fst (Room_remove_item (store g c) ''key'')
      = (store g c)\<lparr>items := remove1 k (items (store g c))\<rparr>"
    using assms(3) by (simp add: Room_remove_item_def Room_get_item_def)
  have first: "process_command g command rnd =
      Inr (g', [''\<newline>You pick up the rusty iron key and add it to your inventory.''])"
    using assms(2,3) rem
    by (simp add: take_key_dispatch [OF assms(4) nc] take_key_def g'_def Player_add_item_def)
  have st: "store g' Room1 = room1\<lparr>items := [], north_door_locked := \<not> door_unlocked g\<rparr>"
    "store g' Room2 = room2" "store g' Room3 = room3" "inventory (player g') = [key]"
    "current_room g' = Some Room1" "\<not> in_combat g'"
    using k nc assms(2) world_inv_rest(2,3) [OF w] by (simp_all add: g'_def room_facts)
  have nowhere: "k \<notin> set (items (store g' r))" for r
    using st k(2) by (cases r) (simp_all add: room_facts item_facts)
  have second: "process_command g' command rnd' = Inr (g', [''\<newline>There's no key here.''])"
    using st by (simp add: take_key_dispatch [OF assms(4) st(6)] take_key_def Room_get_item_def)
  have "k \<in> set (items (store g c))"
    using k by (simp add: room_facts)
  with first second nowhere st(4) k(2) show ?thesis
    unfolding g'_def [symmetric] by (intro exI [of _ g']) simp
qed

lemma main_Nil: "final_state (main []) = Some Game_init"
  by (simp add: main_def final_state_run Game_init_simps)

lemma Game_init_key: "Room_get_item (store Game_init Room1) ''key'' = Some key"
  by (simp add: Room_get_item_def world_defs text_defs)

lemma keyed_game_eq:
  "Game_init\<lparr>store := (store Game_init)
        (Room1 := (store Game_init Room1)\<lparr>items := remove1 key (items (store Game_init Room1))\<rparr>),
      player := (player Game_init)\<lparr>inventory := inventory (player Game_init) @ [key]\<rparr>\<rparr>
   = keyed_game"
  by (simp add: keyed_game_def world_defs)

theorem take_key_transfers_witness:
  "final_state (main []) = Some Game_init \<and> current_room Game_init = Some Room1 \<and>
   Room_get_item (store Game_init Room1) ''key'' = Some key \<and>
   process_command Game_init ''Take Key'' (0, 0) =
     Inr (keyed_game, [''\<newline>You pick up the rusty iron key and add it to your inventory.'']) \<and>
   key \<in> set (items (store Game_init Room1)) \<and>
   key \<notin> set (items (store keyed_game Room1)) \<and>
   count_list (inventory (player keyed_game)) key = 1 \<and>
   process_command keyed_game ''Take Key'' (0, 0) =
     Inr (keyed_game, [''\<newline>There's no key here.''])"
proof -
  have n: "strip (lower ''Take Key'') \<in> set [''take key'', ''pick up key'', ''get key'']"
    by (simp add: text_defs)
  show ?thesis
    using take_key_transfers [OF main_Nil Game_init_simps(2) Game_init_key n, of "(0, 0)" "(0, 0)"]
    by (simp add: keyed_game_eq main_Nil Game_init_simps Game_init_key)
qed

section \<open>A run raises no exception\<close>

text \<open>
  A property of every outcome that the branches of \<open>process_command\<close> can return
  holds of what it returns.
\<close>

lemma process_command_branches:
  assumes "\<And>out. P (Inr (g, out))"
    and "P (combat_turn g rnd)"
    and "\<And>out. P (Inr (g\<lparr>game_over := True\<rparr>, out))"
    and "\<And>d. P (move g d)"
    and "P (case current_room g of
              None \<Rightarrow> Inl AttributeError
            | Some c \<Rightarrow> Inr (g, [get_full_description (store g c)]))"
    and "P (take_key g)" and "P (read_note g)" and "\<And>p. P (unlock_door g p)"
    and "P (open_door g)"
  shows "P (process_command g command rnd)"
proof -
  define c where "c = strip (lower command)"
  define m1 where "m1 = [''\<newline>You're in combat! You can only 'attack' or 'quit'.'']"
  define m2 where "m2 = [''\<newline>Thanks for playing! Goodbye.'']"
  define m3 where
    "m3 = [''\<newline>I don't understand that command. Type 'help' for available commands.'']"
  define b0 where "b0 \<longleftrightarrow> c = []"
  define b1 where "b1 \<longleftrightarrow> c = ''attack''"
  define b2 where "b2 \<longleftrightarrow> c = ''help''"
  define b3 where "b3 \<longleftrightarrow> c \<in> set [''quit'', ''exit'', ''q'']"
  define b4 where "b4 \<longleftrightarrow> startswith c ''go ''"
  define b5 where "b5 \<longleftrightarrow> c = ''look''"
  define b6 where "b6 \<longleftrightarrow> c \<in> set [''inventory'', ''i'']"
  define b7 where "b7 \<longleftrightarrow> c \<in> set [''take key'', ''pick up key'', ''get key'']"
  define b8 where "b8 \<longleftrightarrow> c \<in> set [''read note'', ''examine note'', ''look at note'']"
  define b9 where "b9 \<longleftrightarrow> startswith c ''unlock door with ''"
  define b10 where "b10 \<longleftrightarrow> c \<in> set [''open door'', ''open north door'']"
  have eq: "process_command g command rnd =
     (if b0 then Inr (g, [])
      else if in_combat g then (if b1 then combat_turn g rnd else Inr (g, m1))
      else if b2 then Inr (g, show_help)
      else if b3 then Inr (g\<lparr>game_over := True\<rparr>, m2)
      else if b4 then move g (strip (drop 3 c))
      else if b5 then
        (case current_room g of
           None \<Rightarrow> Inl AttributeError
         | Some r \<Rightarrow> Inr (g, [get_full_description (store g r)]))
      else if b6 then Inr (g, [show_inventory (player g)])
      else if b7 then take_key g
      else if b8 then read_note g
      else if b9 then unlock_door g (upper (strip (drop 17 c)))
      else if b10 then open_door g
      else Inr (g, m3))"
    unfolding process_command_def Let_def c_def m1_def m2_def m3_def b0_def b1_def b2_def b3_def
      b4_def b5_def b6_def b7_def b8_def b9_def b10_def ..
  show ?thesis
    unfolding eq by (simp add: assms)
qed

lemma combat_turn_total:
  assumes "stats_inv g"
  shows "final_state (combat_turn g rnd) \<noteq> None"
proof (cases "enemy g")
  case None
  then show ?thesis by (simp add: combat_turn_def)
next
  case (Some e)
  from assms have "player.min_damage (player g) = 1" "player.max_damage (player g) = 6"
    by (simp_all add: stats_inv_def)
  then obtain pd where pd: "Player_attack (player g) (fst rnd) = Inr pd"
    using randint_range [of 1 6 "fst rnd"] by (auto simp add: Player_attack_def)
  from assms Some have "enemy.min_damage (Enemy_take_damage e pd) = 1"
    "enemy.max_damage (Enemy_take_damage e pd) = 4"
    by (auto simp add: stats_inv_def Enemy_take_damage_def Let_def)
  then obtain ed where ed: "Enemy_attack (Enemy_take_damage e pd) (snd rnd) = Inr ed"
    using randint_range [of 1 4 "snd rnd"] by (auto simp add: Enemy_attack_def)
  show ?thesis
    using Some pd ed by (simp add: combat_turn_def Let_def)
qed

lemma move_total: "current_room g \<noteq> None \<Longrightarrow> final_state (move g d) \<noteq> None"
  by (auto simp add: final_state_move split: option.splits)

lemma take_key_total: "current_room g \<noteq> None \<Longrightarrow> final_state (take_key g) \<noteq> None"
  by (auto simp add: take_key_def Let_def split: option.splits)

lemma read_note_total: "current_room g \<noteq> None \<Longrightarrow> final_state (read_note g) \<noteq> None"
  by (auto simp add: read_note_def split: option.splits)

lemma open_door_total: "current_room g \<noteq> None \<Longrightarrow> final_state (open_door g) \<noteq> None"
  by (auto simp add: open_door_def split: option.splits)

lemma unlock_door_total:
  "rooms g ''room1'' \<noteq> None \<Longrightarrow> final_state (unlock_door g p) \<noteq> None"
  by (auto simp add: unlock_door_def split: option.splits)

lemma process_command_total:
  assumes "world_inv g" and "stats_inv g"
  shows "final_state (process_command g command rnd) \<noteq> None"
proof -
  from assms(1) have c: "current_room g \<noteq> None" and r: "rooms g ''room1'' \<noteq> None"
    by (auto simp add: world_inv_def rooms_init)
  show ?thesis
  proof (rule process_command_branches)
    show "final_state (case current_room g of
              None \<Rightarrow> Inl AttributeError
            | Some c \<Rightarrow> Inr (g, [get_full_description (store g c)])) \<noteq> None"
      using c by (auto split: option.splits)
  qed (simp_all add: combat_turn_total [OF assms(2)] move_total [OF c] take_key_total [OF c]
      read_note_total [OF c] open_door_total [OF c] unlock_door_total [OF r])
qed

lemma run_loop_total:
  "world_inv g \<Longrightarrow> stats_inv g \<Longrightarrow> final_state (run_loop g inputs) \<noteq> None"
proof (induction inputs arbitrary: g)
  case Nil
  show ?case by simp
next
  case (Cons x xs)
  obtain line rnd where x: "x = (line, rnd)" by (cases x)
  show ?case
  proof (cases "game_over g")
    case True
    then show ?thesis by (simp add: x final_state_run_loop_Cons)
  next
    case False
    from process_command_total [OF Cons.prems] obtain g1 where
      "final_state (process_command g (strip line) rnd) = Some g1" by blast
    then have s: "process_command g (strip line) rnd
        = Inr (g1, printed (process_command g (strip line) rnd))"
      by (rule outcome_collapse)
    have "world_inv g1" "stats_inv g1"
      using process_command_world [OF Cons.prems(1) False s]
        process_command_stats [OF Cons.prems(2) False s] by simp_all
    then have "final_state (run_loop g1 xs) \<noteq> None" by (rule Cons.IH)
    then show ?thesis
      unfolding x final_state_run_loop_Cons
      using False \<open>final_state (process_command g (strip line) rnd) = Some g1\<close>
      by (simp del: run_loop.simps)
  qed
qed

lemma main_total: "\<exists>g out. main inputs = Inr (g, out)"
proof -
  have "final_state (main inputs) \<noteq> None"
    using run_loop_total [OF world_inv_init stats_inv_init, of inputs]
    by (simp add: main_def final_state_run Game_init_simps)
  then show ?thesis
    by (auto simp add: final_state_def split: sum.splits)
qed

section \<open>Entering the arena\<close>

text \<open>No line that the game prints but the announcement of \<open>start_combat\<close> is that line.\<close>

lemma replicate_not_emerges: "c \<noteq> CHR '' '' \<Longrightarrow> replicate n c \<noteq> emerges"
  by (cases n) (simp_all add: emerges_def)

lemma newline_not_emerges: "CHR ''\<newline>'' # s \<noteq> emerges"
  by (simp add: emerges_def)

lemma get_full_description_not_emerges: "get_full_description r \<noteq> emerges"
  by (simp add: get_full_description_def Let_def emerges_def)

lemma show_inventory_not_emerges: "show_inventory p \<noteq> emerges"
  by (simp add: show_inventory_def emerges_def)

lemma help_text_not_emerges: "help_text \<noteq> emerges"
  by (simp add: help_text_def emerges_def)

lemma start_combat_emerges: "count_list (snd (start_combat g)) emerges = 1"
  by (simp add: start_combat_def Let_def emerges_def replicate_not_emerges [unfolded emerges_def])

lemma not_space_not_emerges: "c \<noteq> CHR '' '' \<Longrightarrow> c # s \<noteq> emerges"
  by (simp add: emerges_def)

lemma spaced_not_emerges: "c \<noteq> CHR ''A'' \<Longrightarrow> CHR '' '' # CHR '' '' # c # s \<noteq> emerges"
  by (simp add: emerges_def)

lemmas quiet = replicate_not_emerges not_space_not_emerges spaced_not_emerges
  get_full_description_not_emerges show_inventory_not_emerges help_text_not_emerges

lemma combat_turn_quiet:
  assumes "combat_turn g rnd = Inr (g', out)"
  shows "count_list out emerges = 0" and "enemy g \<noteq> None \<Longrightarrow> enemy g' \<noteq> None"
    and "in_combat g \<Longrightarrow> \<not> in_combat g' \<Longrightarrow> game_over g' \<and> enemy g' \<noteq> None"
  using assms
  by (auto simp add: combat_turn_def Let_def quiet split: option.splits sum.splits if_splits)

lemma move_outcomes:
  assumes "move g d = Inr (g', out)"
  shows "count_list out emerges = 0 \<and> enemy g' = enemy g \<and> in_combat g' = in_combat g
    \<or> count_list out emerges = 1 \<and> enemy g' \<noteq> None \<and> in_combat g'"
  using assms
  by (auto simp add: move_def Let_def start_combat_def emerges_def quiet [unfolded emerges_def]
      split: option.splits if_splits)

lemma take_key_quiet:
  "take_key g = Inr (g', out) \<Longrightarrow> count_list out emerges = 0 \<and> enemy g' = enemy g"
  by (auto simp add: take_key_def Let_def quiet split: option.splits)

lemma read_note_quiet:
  "read_note g = Inr (g', out) \<Longrightarrow> count_list out emerges = 0 \<and> enemy g' = enemy g"
  by (auto simp add: read_note_def quiet split: option.splits)

lemma unlock_door_quiet:
  "unlock_door g p = Inr (g', out) \<Longrightarrow> count_list out emerges = 0 \<and> enemy g' = enemy g"
  by (auto simp add: unlock_door_def quiet split: option.splits if_splits)

lemma open_door_quiet:
  "open_door g = Inr (g', out) \<Longrightarrow> count_list out emerges = 0 \<and> enemy g' = enemy g"
  by (auto simp add: open_door_def quiet split: option.splits if_splits)

lemma process_command_keeps_enemy:
  assumes "process_command g command rnd = Inr (g', out)"
  shows "(enemy g \<noteq> None \<longrightarrow> enemy g' \<noteq> None) \<and>
    (in_combat g \<and> \<not> in_combat g' \<longrightarrow> game_over g' \<and> enemy g' \<noteq> None)"
  using assms
proof (cases rule: process_command_cases)
  case Attack
  then show ?thesis using combat_turn_quiet(2,3) [of g rnd g' out] by blast
next
  case (Go d)
  then show ?thesis using move_outcomes [of g d g' out] by auto
next
  case Take
  then show ?thesis using take_key_quiet [of g g' out] by simp
next
  case Read
  then show ?thesis using read_note_quiet [of g g' out] by simp
next
  case (Unlock p)
  then show ?thesis using unlock_door_quiet [of g p g' out] by simp
next
  case Open
  then show ?thesis using open_door_quiet [of g g' out] by simp
qed simp_all

lemma process_command_emerges:
  assumes "flags_inv g" and "\<not> game_over g"
    and "process_command g command rnd = Inr (g', out)"
  shows "count_list out emerges \<le> 1 \<and>
    (enemy g \<noteq> None \<longrightarrow> count_list out emerges = 0) \<and>
    (count_list out emerges = 1 \<longrightarrow> enemy g' \<noteq> None)"
  using assms(3)
proof (cases rule: process_command_cases)
  case Attack
  then show ?thesis using combat_turn_quiet(1) [of g rnd g' out] by simp
next
  case (Go d)
  with assms(1,2) have "enemy g = None" by (auto simp add: flags_inv_def)
  then show ?thesis using move_outcomes [OF Go(2)] by auto
next
  case Take
  then show ?thesis using take_key_quiet [of g g' out] by simp
next
  case Read
  then show ?thesis using read_note_quiet [of g g' out] by simp
next
  case (Unlock p)
  then show ?thesis using unlock_door_quiet [of g p g' out] by simp
next
  case Open
  then show ?thesis using open_door_quiet [of g g' out] by simp
qed (simp_all add: quiet show_help_def)

lemma run_loop_emerges:
  "flags_inv g \<Longrightarrow> run_loop g inputs = Inr (g', out) \<Longrightarrow>
   count_list out emerges \<le> (if enemy g = None then 1 else 0)"
proof (induction inputs arbitrary: g out)
  case Nil
  then show ?case by (auto simp add: quiet split: if_splits)
next
  case (Cons x xs)
  obtain line rnd where x: "x = (line, rnd)" by (cases x)
  show ?case
  proof (cases "game_over g")
    case True
    with Cons.prems show ?thesis by (simp add: x)
  next
    case False
    with Cons.prems obtain g1 out1 out2 where
      s: "process_command g (strip line) rnd = Inr (g1, out1)"
      and r: "run_loop g1 xs = Inr (g', out2)" and o: "out = out1 @ out2"
      by (auto simp add: x split: sum.splits)
    have f: "flags_inv g1" using Cons.prems(1) False s by (rule process_command_flags)
    note a = process_command_emerges [OF Cons.prems(1) False s]
    note b = Cons.IH [OF f r]
    note k = process_command_keeps_enemy [OF s]
    show ?thesis
      using a b k unfolding o count_list_append
      by (auto split: if_splits)
  qed
qed

lemma show_intro_quiet: "show_intro g = Inr intro \<Longrightarrow> count_list intro emerges = 0"
  by (auto simp add: show_intro_def quiet split: option.splits)

lemma main_emerges: "main inputs = Inr (g, out) \<Longrightarrow> count_list out emerges \<le> 1"
proof -
  assume "main inputs = Inr (g, out)"
  then obtain intro out' where i: "show_intro Game_init = Inr intro"
    and r: "run_loop Game_init inputs = Inr (g, out')" and o: "out = intro @ out'"
    by (auto simp add: main_def run_def split: sum.splits)
  from run_loop_emerges [OF flags_inv_init r] show_intro_quiet [OF i]
  show ?thesis unfolding o count_list_append by (simp split: if_splits)
qed

text \<open>
  Claim C5, as amended. Moving north into the room named Enemy Arena while
  \<open>enemy_defeated\<close> is false starts combat: a new enemy named Dark Warrior is created,
  with health 10 equal to its maximum and damage range 1 to 4, \<open>in_combat\<close> is set, and
  the enemy is announced once. Moving north while \<open>enemy_defeated\<close> is true only changes
  the room: no enemy is created, \<open>in_combat\<close> is left as it is and nothing but the
  description of the room is printed. In a whole run, which raises no exception, combat
  starts at most once. The enemy is not discarded when the encounter resolves: no
  command resets the \<open>enemy\<close> field, and a command that ends combat ends the game and
  leaves the enemy in place.
\<close>

theorem arena_starts_combat:
  "(current_room g = Some c \<and> north (store g c) = Some n \<and> \<not> north_door_locked (store g c) \<and>
    room.name (store g n) = ''Enemy Arena'' \<and> \<not> enemy_defeated g \<longrightarrow>
      final_state (move g ''north'') =
        Some (g\<lparr>current_room := Some n,
                enemy := Some \<lparr>enemy.name = ''Dark Warrior'', enemy.health = 10,
                                enemy.max_health = 10, enemy.min_damage = 1,
                                enemy.max_damage = 4\<rparr>,
                in_combat := True\<rparr>) \<and>
      count_list (printed (move g ''north'')) emerges = 1) \<and>
   (current_room g = Some c \<and> north (store g c) = Some n \<and> \<not> north_door_locked (store g c) \<and>
    enemy_defeated g \<longrightarrow>
      move g ''north'' = Inr (g\<lparr>current_room := Some n\<rparr>, [get_full_description (store g n)])) \<and>
   (\<exists>g' out. main inputs = Inr (g', out) \<and> count_list out emerges \<le> 1) \<and>
   (process_command s command rnd = Inr (s', out') \<longrightarrow>
      (enemy s \<noteq> None \<longrightarrow> enemy s' \<noteq> None) \<and>
      (in_combat s \<and> \<not> in_combat s' \<longrightarrow> game_over s' \<and> enemy s' \<noteq> None))"
proof -
  have n: "lower ''north'' = ''north''" by (simp add: text_defs)
  have a: "final_state (move g ''north'') =
        Some (g\<lparr>current_room := Some n,
                enemy := Some \<lparr>enemy.name = ''Dark Warrior'', enemy.health = 10,
                                enemy.max_health = 10, enemy.min_damage = 1,
                                enemy.max_damage = 4\<rparr>,
                in_combat := True\<rparr>) \<and>
      count_list (printed (move g ''north'')) emerges = 1"
    if "current_room g = Some c" "north (store g c) = Some n" "\<not> north_door_locked (store g c)"
      "room.name (store g n) = ''Enemy Arena''" "\<not> enemy_defeated g"
    using that
    by (simp add: move_def n Let_def start_combat_def Enemy_init_def printed_def emerges_def
        quiet [unfolded emerges_def])
  have b: "move g ''north'' = Inr (g\<lparr>current_room := Some n\<rparr>, [get_full_description (store g n)])"
    if "current_room g = Some c" "north (store g c) = Some n" "\<not> north_door_locked (store g c)"
      "enemy_defeated g"
    using that by (simp add: move_def n Let_def)
  have c: "\<exists>g' out. main inputs = Inr (g', out) \<and> count_list out emerges \<le> 1"
    using main_total [of inputs] main_emerges by blast
  show ?thesis
    using a b c process_command_keeps_enemy [of s command rnd s' out'] by blast
qed

lemma unlocked_to_arena:
  "unlocked_game\<lparr>current_room := Some Room3,
      enemy := Some \<lparr>enemy.name = ''Dark Warrior'', enemy.health = 10, enemy.max_health = 10,
                      enemy.min_damage = 1, enemy.max_damage = 4\<rparr>,
      in_combat := True\<rparr> = arena_game"
  by (simp add: unlocked_game_def keyed_game_def arena_game_def world_defs)

lemma treasury_simps:
  "north (store unlocked_game Room2) = Some Room3" "\<not> north_door_locked (store unlocked_game Room2)"
  "room.name (store unlocked_game Room3) = ''Enemy Arena''" "\<not> enemy_defeated unlocked_game"
  "north (store victory_game Room2) = Some Room3" "\<not> north_door_locked (store victory_game Room2)"
  "enemy_defeated victory_game" "victory_game\<lparr>current_room := Some Room3\<rparr> = victory_game"
  by (simp_all add: unlocked_game_def keyed_game_def victory_game_def arena_game_def world_defs)

theorem arena_starts_combat_witness:
  "final_state (move (unlocked_game\<lparr>current_room := Some Room2\<rparr>) ''north'') = Some arena_game \<and>
   count_list (printed (move (unlocked_game\<lparr>current_room := Some Room2\<rparr>) ''north'')) emerges = 1 \<and>
   move (victory_game\<lparr>current_room := Some Room2\<rparr>) ''north'' =
     Inr (victory_game, [get_full_description (store victory_game Room3)]) \<and>
   (\<exists>g' out. main to_victory = Inr (g', out) \<and> count_list out emerges \<le> 1) \<and>
   process_command wounded_game ''attack'' (5, 0) =
     Inr (victory_game, printed (process_command wounded_game ''attack'' (5, 0))) \<and>
   game_over victory_game \<and> enemy victory_game \<noteq> None"
  using arena_starts_combat [of "unlocked_game\<lparr>current_room := Some Room2\<rparr>" Room2 Room3
      to_victory wounded_game "''attack''" "(5, 0)" victory_game
      "printed (process_command wounded_game ''attack'' (5, 0))"]
    arena_starts_combat [of "victory_game\<lparr>current_room := Some Room2\<rparr>" Room2 Room3
      to_victory wounded_game "''attack''" "(5, 0)" victory_game
      "printed (process_command wounded_game ''attack'' (5, 0))"]
    outcome_collapse [OF wounded_attack]
  by (simp add: treasury_simps unlocked_to_arena combat_states_simps victory_game_simps)

text \<open>
  The claim as written fails in its last part: after the session \<open>to_victory\<close> the
  encounter is resolved, the game is won and over, and the \<open>enemy\<close> field still holds
  the Dark Warrior, at health 0.
\<close>

theorem enemy_kept_counterexample:
  "final_state (main to_victory) = Some victory_game \<and>
   \<not> in_combat victory_game \<and> game_over victory_game \<and> game_won victory_game \<and>
   enemy victory_game =
     Some \<lparr>enemy.name = ''Dark Warrior'', enemy.health = 0, enemy.max_health = 10,
           enemy.min_damage = 1, enemy.max_damage = 4\<rparr> \<and>
   enemy victory_game \<noteq> None"
  by (simp add: victory_reached victory_game_simps wounded_victory_simps)

end
